theory Spec2Isabelle
  imports Complex_Main "HOL-Library.Multiset"
begin

section \<open>The blog list component (src/js/BlogList.js)\<close>

text \<open>
  A shallow embedding of the \<^verbatim>\<open>BlogList\<close> class: the data acquisition with its cache
  and retry loop, the sort, filter and search handlers, the renderer and the
  initialisation. Every method is a function from the component state to an outcome
  (the state after a normal return, or the state at the moment an exception escapes).
\<close>

subsection \<open>Numbers\<close>

text \<open>
  A JavaScript number is \<open>NaN\<close>, an infinity or a finite value. Finite values are kept
  as rationals. \<open>num_sub\<close> is the exact difference: it serves the sort comparators, which
  only look at the sign of a difference, and the sign of the difference of two doubles
  is the sign of the exact difference.
\<close>

datatype jsnum = NaN | NegInf | Fin rat | PosInf

fun num_sub :: "jsnum \<Rightarrow> jsnum \<Rightarrow> jsnum" where
  "num_sub NaN _ = NaN"
| "num_sub _ NaN = NaN"
| "num_sub PosInf PosInf = NaN"
| "num_sub NegInf NegInf = NaN"
| "num_sub PosInf _ = PosInf"
| "num_sub NegInf _ = NegInf"
| "num_sub (Fin a) PosInf = NegInf"
| "num_sub (Fin a) NegInf = PosInf"
| "num_sub (Fin a) (Fin b) = Fin (a - b)"

text \<open>The relational operator \<^verbatim>\<open><\<close>: false as soon as one side is \<open>NaN\<close>.\<close>

fun num_lt :: "jsnum \<Rightarrow> jsnum \<Rightarrow> bool" where
  "num_lt NaN _ = False"
| "num_lt _ NaN = False"
| "num_lt NegInf NegInf = False"
| "num_lt NegInf _ = True"
| "num_lt _ NegInf = False"
| "num_lt PosInf _ = False"
| "num_lt (Fin a) PosInf = True"
| "num_lt (Fin a) (Fin b) = (a < b)"

text \<open>
  Where a difference is compared with a bound other than zero, the rounding counts: the
  difference of two doubles is the exact difference rounded to the nearest double, ties
  to the even significand. \<open>bit_length n\<close> is the number of binary digits of \<open>n\<close>, \<open>binade a\<close>
  the exponent of the largest power of two not above a positive \<open>a\<close>. A double has a
  significand of 53 bits, so its last place has the exponent \<open>binade a - 52\<close>, and not
  less than \<open>-1074\<close> (the subnormal numbers). A magnitude that rounds to \<open>2 ^ 1024\<close> or
  more is an infinity.
\<close>

fun bit_length :: "nat \<Rightarrow> nat" where
  "bit_length n = (if n = 0 then 0 else Suc (bit_length (n div 2)))"

definition binade :: "rat \<Rightarrow> int" where
  "binade a =
     (if 1 \<le> a then int (bit_length (nat \<lfloor>a\<rfloor>)) - 1
      else - int (bit_length (nat (\<lceil>1 / a\<rceil> - 1))))"

definition round_even :: "rat \<Rightarrow> int" where
  "round_even q =
     (let f = \<lfloor>q\<rfloor>; r = q - of_int f
      in if r < 1 / 2 then f else if 1 / 2 < r then f + 1 else if even f then f else f + 1)"

definition ulp_exponent :: "rat \<Rightarrow> int" where
  "ulp_exponent a = max (binade a - 52) (- 1074)"

definition round_magnitude :: "rat \<Rightarrow> rat" where
  "round_magnitude a = of_int (round_even (a / 2 powi ulp_exponent a)) * 2 powi ulp_exponent a"

definition to_double :: "rat \<Rightarrow> jsnum" where
  "to_double x =
     (if x = 0 then Fin 0
      else if 2 ^ 1024 \<le> round_magnitude \<bar>x\<bar> then (if 0 < x then PosInf else NegInf)
      else Fin (if 0 < x then round_magnitude \<bar>x\<bar> else - round_magnitude \<bar>x\<bar>))"

text \<open>The operator \<^verbatim>\<open>-\<close> on two doubles, rounded.\<close>

definition double_sub :: "jsnum \<Rightarrow> jsnum \<Rightarrow> jsnum" where
  "double_sub a b = (case num_sub a b of Fin d \<Rightarrow> to_double d | r \<Rightarrow> r)"

definition MAX_SAFE_INTEGER :: jsnum where
  "MAX_SAFE_INTEGER = Fin (2 ^ 53 - 1)"

subsection \<open>Strings\<close>

text \<open>
  A string is a list of code units; the model covers the code units below 256, where
  \<^verbatim>\<open>toLowerCase\<close>, \<^verbatim>\<open>trim\<close> and the classes \<^verbatim>\<open>\d\<close> and \<^verbatim>\<open>\s\<close> are the tables below.
\<close>

definition isDigit :: "char \<Rightarrow> bool" where
  "isDigit c = (48 \<le> (of_char c :: nat) \<and> (of_char c :: nat) \<le> 57)"

definition isSpace :: "char \<Rightarrow> bool" where
  "isSpace c = ((of_char c :: nat) \<in> {9, 10, 11, 12, 13, 32, 160})"

definition lowerChar :: "char \<Rightarrow> char" where
  "lowerChar c =
     (let n = (of_char c :: nat)
      in if (65 \<le> n \<and> n \<le> 90) \<or> (192 \<le> n \<and> n \<le> 222 \<and> n \<noteq> 215)
         then char_of (n + 32) else c)"

definition toLowerCase :: "string \<Rightarrow> string" where
  "toLowerCase s = map lowerChar s"

definition trim :: "string \<Rightarrow> string" where
  "trim s = rev (dropWhile isSpace (rev (dropWhile isSpace s)))"

fun startsWith :: "string \<Rightarrow> string \<Rightarrow> bool" where
  "startsWith s [] = True"
| "startsWith [] (p # ps) = False"
| "startsWith (c # cs) (p # ps) = (c = p \<and> startsWith cs ps)"

text \<open>\<^verbatim>\<open>s.includes(q)\<close>: \<open>q\<close> occurs in \<open>s\<close> as a contiguous run.\<close>

fun includes_str :: "string \<Rightarrow> string \<Rightarrow> bool" where
  "includes_str [] q = (q = [])"
| "includes_str (c # cs) q = (startsWith (c # cs) q \<or> includes_str cs q)"

text \<open>\<^verbatim>\<open>x || ""\<close> followed by \<^verbatim>\<open>toString()\<close>, for a field that is a string or missing.\<close>

definition orEmpty :: "string option \<Rightarrow> string" where
  "orEmpty v = (case v of None \<Rightarrow> [] | Some s \<Rightarrow> s)"

subsection \<open>The two regular expressions and \<^verbatim>\<open>parseInt\<close>\<close>

text \<open>
  \<^verbatim>\<open>String.prototype.match\<close> without the \<^verbatim>\<open>g\<close> flag returns \<^verbatim>\<open>null\<close> or the array of the
  whole match followed by the capture groups.

  \<^verbatim>\<open>/(\d+)(?=\s*min)/i\<close>: at the leftmost position where it succeeds, a greedy run of
  digits followed (without being consumed) by optional white space and the letters
  m, i, n in either case. A shorter run of digits is followed by a digit, so
  backtracking never succeeds and only the maximal run at each start is tried. The
  array has the whole match and group 1, the same digits.
\<close>

definition lookaheadMin :: "string \<Rightarrow> bool" where
  "lookaheadMin s = startsWith (toLowerCase (take 3 (dropWhile isSpace s))) ''min''"

fun matchDigitsMin :: "string \<Rightarrow> string list option" where
  "matchDigitsMin [] = None"
| "matchDigitsMin (c # cs) =
     (let ds = takeWhile isDigit (c # cs)
      in if ds \<noteq> [] \<and> lookaheadMin (dropWhile isDigit (c # cs))
         then Some [ds, ds] else matchDigitsMin cs)"

text \<open>\<^verbatim>\<open>/\d+/\<close>: the first maximal run of digits. No capture group: the array has one element.\<close>

fun matchDigits :: "string \<Rightarrow> string list option" where
  "matchDigits [] = None"
| "matchDigits (c # cs) =
     (if isDigit c then Some [takeWhile isDigit (c # cs)] else matchDigits cs)"

text \<open>\<^verbatim>\<open>m[i]\<close>: reading an array past its end gives \<^verbatim>\<open>undefined\<close> (\<open>None\<close>).\<close>

definition at_index :: "'a list \<Rightarrow> nat \<Rightarrow> 'a option" where
  "at_index m i = (if i < length m then Some (m ! i) else None)"

definition digitsValue :: "string \<Rightarrow> nat" where
  "digitsValue ds = foldl (\<lambda>acc c. 10 * acc + ((of_char c :: nat) - 48)) 0 ds"

text \<open>
  \<^verbatim>\<open>parseInt(v, 10)\<close>: the argument is converted to a string (\<^verbatim>\<open>undefined\<close> becomes the
  text "undefined"), leading white space and one sign are skipped, and the longest
  prefix of digits is read; with no digit the result is \<open>NaN\<close>.
\<close>

definition parseInt :: "string option \<Rightarrow> jsnum" where
  "parseInt v =
     (let s = dropWhile isSpace (case v of None \<Rightarrow> ''undefined'' | Some t \<Rightarrow> t);
          neg = startsWith s ''-'';
          body = (if startsWith s ''-'' \<or> startsWith s ''+'' then tl s else s);
          ds = takeWhile isDigit body
      in if ds = [] then NaN
         else if neg then Fin (- of_nat (digitsValue ds)) else Fin (of_nat (digitsValue ds)))"

subsection \<open>Blog entries\<close>

text \<open>
  Modelled from the spec: the source has no declaration of an entry; section 3 of the
  specification gives the attributes in use and their types, each of them possibly
  missing. A missing attribute (\<^verbatim>\<open>undefined\<close>) is \<open>None\<close>.
\<close>

datatype reading = Minutes jsnum | Text string

record blog_entry =
  title :: "string option"
  author :: "string option"
  content :: "string option"
  image :: "string option"
  published_date :: "string option"
  reading_time :: "reading option"
  category :: "string option"
  tags :: "string list option"

subsection \<open>Sorting\<close>

text \<open>The helper of \<^verbatim>\<open>onSortChange\<close> (lines 194-201).\<close>

definition parseMinutes :: "reading option \<Rightarrow> jsnum" where
  "parseMinutes val =
     (case val of
        Some (Minutes n) \<Rightarrow> n
      | Some (Text s) \<Rightarrow>
          (case (case matchDigitsMin s of Some m \<Rightarrow> Some m | None \<Rightarrow> matchDigits s) of
             Some m \<Rightarrow> parseInt (at_index m 1)
           | None \<Rightarrow> MAX_SAFE_INTEGER)
      | None \<Rightarrow> MAX_SAFE_INTEGER)"

text \<open>
  \<^verbatim>\<open>Array.prototype.sort\<close> is a built-in of the language: it is stable, a negative
  result of the comparator puts its first argument first, a positive one its second,
  and zero or \<open>NaN\<close> counts as equal. The stable sort is written out as an insertion
  sort; with a consistent comparator every stable sort returns this list.
\<close>

fun place :: "('a \<Rightarrow> 'a \<Rightarrow> jsnum) \<Rightarrow> 'a \<Rightarrow> 'a list \<Rightarrow> 'a list" where
  "place cmp x [] = [x]"
| "place cmp x (y # ys) =
     (if num_lt (Fin 0) (cmp x y) then y # place cmp x ys else x # y # ys)"

fun js_sort :: "('a \<Rightarrow> 'a \<Rightarrow> jsnum) \<Rightarrow> 'a list \<Rightarrow> 'a list" where
  "js_sort cmp [] = []"
| "js_sort cmp (x # xs) = place cmp x (js_sort cmp xs)"

subsection \<open>Exceptions, host functions and the outside world\<close>

datatype js_error = Error string | TypeError string | SyntaxError string

fun message :: "js_error \<Rightarrow> string" where
  "message (Error m) = m"
| "message (TypeError m) = m"
| "message (SyntaxError m) = m"

text \<open>
  A method returns normally or throws; in both cases the component is left in some
  state, because the assignments made before a \<^verbatim>\<open>throw\<close> stay.
\<close>

datatype 's outcome = Normal 's | Throw js_error 's

fun state_of :: "'s outcome \<Rightarrow> 's" where
  "state_of (Normal s) = s"
| "state_of (Throw e s) = s"

text \<open>Sequencing, \<^verbatim>\<open>try ... catch\<close> and \<^verbatim>\<open>try ... finally\<close>.\<close>

definition and_then :: "'s outcome \<Rightarrow> ('s \<Rightarrow> 's outcome) \<Rightarrow> 's outcome" where
  "and_then r f = (case r of Normal s \<Rightarrow> f s | Throw e s \<Rightarrow> Throw e s)"

definition try_catch :: "'s outcome \<Rightarrow> (js_error \<Rightarrow> 's \<Rightarrow> 's outcome) \<Rightarrow> 's outcome" where
  "try_catch r handler = (case r of Normal s \<Rightarrow> Normal s | Throw e s \<Rightarrow> handler e s)"

definition try_finally :: "'s outcome \<Rightarrow> ('s \<Rightarrow> 's outcome) \<Rightarrow> 's outcome" where
  "try_finally r cleanup =
     (case r of
        Normal s \<Rightarrow> cleanup s
      | Throw e s \<Rightarrow> (case cleanup s of Normal s' \<Rightarrow> Throw e s' | Throw e' s' \<Rightarrow> Throw e' s'))"

text \<open>
  Built-ins whose tables are not part of the repository (the date grammar, the locale's
  collation and date format, the printing of numbers) are parameters.
\<close>

record host =
  dateValue :: "string option \<Rightarrow> jsnum"
  localeCompare :: "string \<Rightarrow> string \<Rightarrow> int"
  toLocaleDateString :: "jsnum \<Rightarrow> string"
  numberToString :: "jsnum \<Rightarrow> string"

text \<open>
  What \<^verbatim>\<open>fetchData\<close> observes of the cached text: \<^verbatim>\<open>getItem\<close> throws, there is no text
  (\<^verbatim>\<open>null\<close> or the empty string), \<^verbatim>\<open>JSON.parse\<close> throws, or a value is parsed. Of the parsed
  value it observes whether it is falsy, whether its \<^verbatim>\<open>data\<close> is an array, and the number
  its \<^verbatim>\<open>timestamp\<close> converts to (\<open>NaN\<close> when the attribute is missing).
\<close>

datatype parsed = Falsy | NoArray | Envelope "blog_entry list" jsnum

datatype cache_read = GetItemThrows | NoItem | ParseThrows | Parsed parsed

text \<open>One network attempt: \<^verbatim>\<open>fetch\<close> rejects, the status is not ok, \<^verbatim>\<open>res.json()\<close> rejects,
  the body is not an array, or the body is an array of entries.\<close>

datatype response =
  FetchRejects js_error | NotOk | JsonRejects js_error | NonArray | Payload "blog_entry list"

text \<open>
  \<open>clock k\<close> is what \<^verbatim>\<open>Date.now()\<close> returns after \<open>k\<close> network attempts, \<open>network k\<close> the
  outcome of attempt \<open>k\<close>.
\<close>

record env =
  cache :: cache_read
  clock :: "nat \<Rightarrow> int"
  network :: "nat \<Rightarrow> response"

datatype effect = NetworkRequest | Delay nat | CacheWrite "blog_entry list" int

subsection \<open>The component state\<close>

text \<open>
  The fields of the instance, with the arrays in an explicit store: \<open>items\<close> and
  \<open>filteredItems\<close> hold references, \<open>store\<close> maps a reference to the array's content and
  \<open>next_ref\<close> is the first reference not yet allocated. An element that \<^verbatim>\<open>querySelector\<close>
  does not find is \<open>None\<close>; the content region is kept as its \<^verbatim>\<open>innerHTML\<close>, the
  indicator as its class list, the error region as its class list and text, a control
  as its current value. \<open>effects\<close> logs the requests, delays and cache writes.
\<close>

datatype control = SortSelect | FilterSelect | SearchInput

record blog_list =
  listContainer :: "string option"
  loadingIndicator :: "string list option"
  errorContainer :: "(string list \<times> string) option"
  sortSelect :: "string option"
  filterSelect :: "string option"
  searchInput :: "string option"
  items :: nat
  filteredItems :: nat
  page :: nat
  perPage :: nat
  listeners :: "control list"
  store :: "nat \<Rightarrow> blog_entry list"
  next_ref :: nat
  effects :: "effect list"

text \<open>A new array (\<^verbatim>\<open>[...xs]\<close>, \<^verbatim>\<open>filter\<close>, or the result of a JSON parse).\<close>

definition alloc :: "blog_entry list \<Rightarrow> blog_list \<Rightarrow> nat \<times> blog_list" where
  "alloc xs s =
     (next_ref s, s\<lparr>store := (store s)(next_ref s := xs), next_ref := Suc (next_ref s)\<rparr>)"

text \<open>The arrays the two fields refer to.\<close>

definition itemsArray :: "blog_list \<Rightarrow> blog_entry list" where
  "itemsArray s = store s (items s)"

definition filteredArray :: "blog_list \<Rightarrow> blog_entry list" where
  "filteredArray s = store s (filteredItems s)"

text \<open>
  The constructor (lines 19-46), from the six elements \<^verbatim>\<open>querySelector\<close> returns: two new
  empty arrays, page 1, ten entries per page.
\<close>

definition BlogList ::
  "string option \<Rightarrow> string list option \<Rightarrow> (string list \<times> string) option \<Rightarrow>
   string option \<Rightarrow> string option \<Rightarrow> string option \<Rightarrow> blog_list" where
  "BlogList lc li ec ss fs si =
     \<lparr>listContainer = lc, loadingIndicator = li, errorContainer = ec,
      sortSelect = ss, filterSelect = fs, searchInput = si,
      items = 0, filteredItems = 1, page = 1, perPage = 10, listeners = [],
      store = (\<lambda>r. []), next_ref = 2, effects = []\<rparr>"

definition classList_remove :: "string \<Rightarrow> string list \<Rightarrow> string list" where
  "classList_remove c cl = filter (\<lambda>x. x \<noteq> c) cl"

definition classList_add :: "string \<Rightarrow> string list \<Rightarrow> string list" where
  "classList_add c cl = (if c \<in> set cl then cl else cl @ [c])"

definition showLoading :: "blog_list \<Rightarrow> blog_list" where
  "showLoading s = s\<lparr>loadingIndicator := map_option (classList_remove ''hidden'') (loadingIndicator s)\<rparr>"

definition hideLoading :: "blog_list \<Rightarrow> blog_list" where
  "hideLoading s = s\<lparr>loadingIndicator := map_option (classList_add ''hidden'') (loadingIndicator s)\<rparr>"

definition showError :: "js_error \<Rightarrow> blog_list \<Rightarrow> blog_list" where
  "showError err s =
     (case errorContainer s of
        None \<Rightarrow> s
      | Some (cl, txt) \<Rightarrow>
          s\<lparr>errorContainer := Some (classList_remove ''hidden'' cl, ''Error: '' @ message err)\<rparr>)"

text \<open>
  \<^verbatim>\<open>setupEventListeners\<close>: a listener is added on each control that exists. The two bound
  methods are the same function at every call, so adding them again changes nothing;
  the search listener is a new closure each time. The 250ms debounce timer of the
  search listener is not part of the model.
\<close>

definition setupEventListeners :: "blog_list \<Rightarrow> blog_list" where
  "setupEventListeners s =
     (let l1 = (if sortSelect s \<noteq> None \<and> SortSelect \<notin> set (listeners s)
                then listeners s @ [SortSelect] else listeners s);
          l2 = (if filterSelect s \<noteq> None \<and> FilterSelect \<notin> set l1
                then l1 @ [FilterSelect] else l1);
          l3 = (if searchInput s \<noteq> None then l2 @ [SearchInput] else l2)
      in s\<lparr>listeners := l3\<rparr>)"

subsection \<open>Rendering\<close>

text \<open>A template interpolation \<^verbatim>\<open>${x}\<close> of a string or of \<^verbatim>\<open>undefined\<close>.\<close>

definition interpolate :: "string option \<Rightarrow> string" where
  "interpolate v = (case v of None \<Rightarrow> ''undefined'' | Some t \<Rightarrow> t)"

definition interpolate_reading :: "host \<Rightarrow> reading option \<Rightarrow> string" where
  "interpolate_reading h v =
     (case v of
        None \<Rightarrow> ''undefined''
      | Some (Minutes n) \<Rightarrow> numberToString h n
      | Some (Text t) \<Rightarrow> t)"

definition tagSpan :: "string \<Rightarrow> string" where
  \<open>tagSpan t = ''<span class="tag">'' @ t @ ''</span>''\<close>

definition article :: "host \<Rightarrow> blog_entry \<Rightarrow> string" where
  \<open>article h item =
     ''\<newline>                <article class="blog-item">\<newline>                    <img src="''
     @ interpolate (image item)
     @ ''" alt="" class="blog-image" />\<newline>                    <div class="blog-content">\<newline>                        <h3 class="blog-title">''
     @ interpolate (title item)
     @ ''</h3>\<newline>                        <div class="blog-meta">\<newline>                            <span class="blog-author">''
     @ interpolate (author item)
     @ ''</span>\<newline>                            <time class="blog-date">''
     @ toLocaleDateString h (dateValue h (published_date item))
     @ ''</time>\<newline>                            <span class="blog-reading-time">''
     @ interpolate_reading h (reading_time item)
     @ ''</span>\<newline>                        </div>\<newline>                        <p class="blog-excerpt">''
     @ interpolate (content item)
     @ ''</p>\<newline>                        <div class="blog-tags">''
     @ concat (map tagSpan (case tags item of None \<Rightarrow> [] | Some ts \<Rightarrow> ts))
     @ ''</div>\<newline>                    </div>\<newline>                </article>\<newline>        ''\<close>

definition noResults :: string where
  \<open>noResults = ''<p class="no-results">No blogs found</p>''\<close>

text \<open>
  \<^verbatim>\<open>render\<close> (lines 145-180). Assigning to \<^verbatim>\<open>innerHTML\<close> of a content region that was not
  found throws a \<^verbatim>\<open>TypeError\<close> (its text depends on the engine).
\<close>

definition render :: "host \<Rightarrow> blog_list \<Rightarrow> blog_list outcome" where
  "render h s =
     (let end_index = page s * perPage s;
          slice = take end_index (store s (filteredItems s));
          html = concat (map (article h) slice)
      in case listContainer s of
           None \<Rightarrow> Throw (TypeError ''Cannot set properties of null'') s
         | Some _ \<Rightarrow>
             Normal (s\<lparr>listContainer := Some (if length slice = 0 then noResults else html)\<rparr>))"

subsection \<open>The handlers\<close>

text \<open>
  An event is given by \<^verbatim>\<open>e.target?.value\<close>: \<open>None\<close> when there is no target or no value.
  \<^verbatim>\<open>onSortChange\<close> (lines 189-231): the comparator of each branch of the \<^verbatim>\<open>switch\<close>, then
  the in-place sort of a copy.
\<close>

definition sortComparator :: "host \<Rightarrow> string \<Rightarrow> blog_entry \<Rightarrow> blog_entry \<Rightarrow> jsnum" where
  "sortComparator h criterion a b =
     (if criterion = ''date'' then
        num_sub (dateValue h (published_date b)) (dateValue h (published_date a))
      else if criterion = ''reading_time'' then
        num_sub (parseMinutes (reading_time a)) (parseMinutes (reading_time b))
      else if criterion = ''category'' then
        Fin (of_int (localeCompare h (toLowerCase (orEmpty (category a)))
                                     (toLowerCase (orEmpty (category b)))))
      else Fin 0)"

definition onSortChange :: "host \<Rightarrow> string option \<Rightarrow> blog_list \<Rightarrow> blog_list outcome" where
  "onSortChange h e s =
     (let criterion = orEmpty e;
          (r, s1) = alloc (store s (filteredItems s)) s;
          s2 = s1\<lparr>store := (store s1)(r := js_sort (sortComparator h criterion) (store s1 r))\<rparr>
      in render h (s2\<lparr>filteredItems := r, page := 1\<rparr>))"

text \<open>\<^verbatim>\<open>onFilterChange\<close> (lines 240-258).\<close>

definition filterMatch :: "string \<Rightarrow> blog_entry \<Rightarrow> bool" where
  "filterMatch needle it =
     (let cat = toLowerCase (orEmpty (category it));
          tgs = (case tags it of Some ts \<Rightarrow> map toLowerCase ts | None \<Rightarrow> [])
      in cat = needle \<or> needle \<in> set tgs)"

definition onFilterChange :: "host \<Rightarrow> string option \<Rightarrow> blog_list \<Rightarrow> blog_list outcome" where
  "onFilterChange h e s =
     (let val = orEmpty e;
          (r, s1) = (if val = [] then alloc (store s (items s)) s
                     else alloc (filter (filterMatch (toLowerCase val)) (store s (items s))) s)
      in render h (s1\<lparr>filteredItems := r, page := 1\<rparr>))"

text \<open>\<^verbatim>\<open>onSearchInput\<close> (lines 267-282); the fake event's target is the filter control.\<close>

definition searchMatch :: "string \<Rightarrow> blog_entry \<Rightarrow> bool" where
  "searchMatch q it =
     (includes_str (toLowerCase (orEmpty (title it))) q
      \<or> includes_str (toLowerCase (orEmpty (content it))) q)"

definition onSearchInput :: "host \<Rightarrow> string option \<Rightarrow> blog_list \<Rightarrow> blog_list outcome" where
  "onSearchInput h e s =
     (let q = toLowerCase (trim (orEmpty e))
      in and_then
           (if q = [] then onFilterChange h (filterSelect s) s
            else (let (r, s1) = alloc (filter (searchMatch q) (store s (items s))) s
                  in Normal (s1\<lparr>filteredItems := r\<rparr>)))
           (\<lambda>s'. render h (s'\<lparr>page := 1\<rparr>)))"

subsection \<open>Data acquisition and initialisation\<close>

definition cacheTtlMs :: rat where
  "cacheTtlMs = 10 * 60 * 1000"

definition maxAttempts :: nat where
  "maxAttempts = 3"

text \<open>\<^verbatim>\<open>this.items = data; this.filteredItems = [...data]\<close>, with \<open>data\<close> a new array.\<close>

definition adopt :: "blog_entry list \<Rightarrow> blog_list \<Rightarrow> blog_list" where
  "adopt data s =
     (let (r1, s1) = alloc data s;
          (r2, s2) = alloc data s1
      in s2\<lparr>items := r1, filteredItems := r2\<rparr>)"

text \<open>The body of the \<^verbatim>\<open>try\<close> of one attempt, up to the payload (lines 98-101).\<close>

fun attemptBody :: "response \<Rightarrow> js_error + blog_entry list" where
  "attemptBody (FetchRejects err) = Inl err"
| "attemptBody NotOk = Inl (Error ''Failed to fetch blogs'')"
| "attemptBody (JsonRejects err) = Inl err"
| "attemptBody NonArray = Inl (Error ''Unexpected API response'')"
| "attemptBody (Payload data) = Inr data"

text \<open>
  The retry loop (lines 96-121). The write to the cache is logged; an exception of
  \<^verbatim>\<open>setItem\<close> is swallowed, so the method goes on the same way whether it throws or not.
\<close>

function fetchLoop :: "env \<Rightarrow> nat \<Rightarrow> blog_list \<Rightarrow> blog_list outcome" where
  "fetchLoop ev attempt s =
     (if attempt \<le> maxAttempts then
        (let s1 = s\<lparr>effects := effects s @ [NetworkRequest]\<rparr>
         in case attemptBody (network ev attempt) of
              Inr data \<Rightarrow>
                Normal ((adopt data s1)
                          \<lparr>effects := effects s1 @ [CacheWrite data (clock ev attempt)]\<rparr>)
            | Inl err \<Rightarrow>
                if attempt < maxAttempts
                then fetchLoop ev (attempt + 1) (s1\<lparr>effects := effects s1 @ [Delay (300 * attempt)]\<rparr>)
                else Throw err s1)
      else Normal s)"
  by pat_completeness auto
termination
  by (relation "measure (\<lambda>(ev, attempt, s). Suc maxAttempts - attempt)") auto

text \<open>
  \<^verbatim>\<open>fetchData\<close> (lines 70-122). \<open>cachedData\<close> is the \<^verbatim>\<open>try\<close> block of lines 75-91: the
  array it adopts before returning, or \<open>None\<close> when control falls through to the network,
  every cache error being ignored.
\<close>

definition cachedData :: "env \<Rightarrow> blog_entry list option" where
  "cachedData ev =
     (case cache ev of
        GetItemThrows \<Rightarrow> None
      | NoItem \<Rightarrow> None
      | ParseThrows \<Rightarrow> None
      | Parsed Falsy \<Rightarrow> None
      | Parsed NoArray \<Rightarrow> None
      | Parsed (Envelope data ts) \<Rightarrow>
          if num_lt (double_sub (Fin (of_int (clock ev 0))) ts) (Fin cacheTtlMs)
          then Some data else None)"

definition fetchData :: "env \<Rightarrow> blog_list \<Rightarrow> blog_list outcome" where
  "fetchData ev s =
     (case cachedData ev of
        Some data \<Rightarrow> Normal (adopt data s)
      | None \<Rightarrow> fetchLoop ev 1 s)"

text \<open>\<^verbatim>\<open>init\<close> (lines 51-62).\<close>

definition init :: "host \<Rightarrow> env \<Rightarrow> blog_list \<Rightarrow> blog_list outcome" where
  "init h ev s =
     try_finally
       (try_catch
          (and_then (and_then (fetchData ev (showLoading s))
                              (\<lambda>s'. Normal (setupEventListeners s')))
                    (render h))
          (\<lambda>err s'. Normal (showError err s')))
       (\<lambda>s'. Normal (hideLoading s'))"

subsection \<open>Notions of the specification and example values\<close>

text \<open>Two strings are equal up to case when their lower-case forms are equal.\<close>

definition ci_equal :: "string \<Rightarrow> string \<Rightarrow> bool" where
  "ci_equal a b = (toLowerCase a = toLowerCase b)"

text \<open>
  What the filter keeps for a value \<open>v\<close>: the entries whose category equals \<open>v\<close> up to
  case (a missing category counts as the empty string) or one of whose tags does.
\<close>

definition filterKeeps :: "string \<Rightarrow> blog_entry \<Rightarrow> bool" where
  "filterKeeps v it =
     (ci_equal (orEmpty (category it)) v
      \<or> (\<exists>t \<in> set (case tags it of None \<Rightarrow> [] | Some ts \<Rightarrow> ts). ci_equal t v))"

text \<open>
  What the search keeps for a trimmed, lower-cased query \<open>q\<close>: the entries whose title or
  content, in lower case, contains \<open>q\<close>.
\<close>

definition searchKeeps :: "string \<Rightarrow> blog_entry \<Rightarrow> bool" where
  "searchKeeps q it =
     (includes_str (toLowerCase (orEmpty (title it))) q
      \<or> includes_str (toLowerCase (orEmpty (content it))) q)"

text \<open>An entry with every attribute missing, a host, and two pages to run examples on.\<close>

definition bare :: blog_entry where
  "bare = \<lparr>title = None, author = None, content = None, image = None,
           published_date = None, reading_time = None, category = None, tags = None\<rparr>"

definition plain_host :: host where
  "plain_host = \<lparr>dateValue = (\<lambda>d. NaN), localeCompare = (\<lambda>a b. 0),
                 toLocaleDateString = (\<lambda>n. ''Invalid Date''), numberToString = (\<lambda>n. ''NaN'')\<rparr>"

definition full_page :: blog_list where
  "full_page = BlogList (Some []) (Some []) (Some ([''hidden''], [])) (Some []) (Some []) (Some [])"

definition with_items :: "blog_entry list \<Rightarrow> blog_list \<Rightarrow> blog_list" where
  "with_items xs s = s\<lparr>store := (store s)(items s := xs, filteredItems s := xs)\<rparr>"

definition sample_entries :: "blog_entry list" where
  "sample_entries =
     [bare\<lparr>title := Some ''React Basics'', category := Some ''Writing'',
           tags := Some [''Gadgets''], reading_time := Some (Text ''5 min read'')\<rparr>,
      bare\<lparr>title := Some ''Funding'', content := Some ''seed rounds'',
           category := Some ''Startups'', reading_time := Some (Minutes (Fin 7))\<rparr>,
      bare\<lparr>title := Some ''Phones'', category := Some ''GADGETS''\<rparr>]"

definition sample_page :: blog_list where
  "sample_page = with_items sample_entries (full_page\<lparr>filterSelect := Some ''Startups''\<rparr>)"

text \<open>
  Worlds for the examples: a network whose three attempts fail in three ways, one that
  answers at the third attempt, and an environment with a constant clock.
\<close>

definition failing_net :: "nat \<Rightarrow> response" where
  "failing_net k =
     (if k = 1 then NotOk else if k = 2 then NonArray
      else FetchRejects (TypeError ''Failed to fetch''))"

definition third_time_net :: "nat \<Rightarrow> response" where
  "third_time_net k = (if k = 3 then Payload sample_entries else NotOk)"

definition world :: "cache_read \<Rightarrow> int \<Rightarrow> (nat \<Rightarrow> response) \<Rightarrow> env" where
  "world c t n = \<lparr>cache = c, clock = (\<lambda>k. t), network = n\<rparr>"

section \<open>Properties\<close>

subsection \<open>Auxiliary facts\<close>

text \<open>The loop is unfolded one turn at a time, by the lemmas below.\<close>

declare fetchLoop.simps [simp del]

declare bit_length.simps [simp del]


lemma mset_place: "mset (place cmp x xs) = add_mset x (mset xs)"
  by (induction xs) auto

lemma mset_js_sort: "mset (js_sort cmp xs) = mset xs"
  by (induction xs) (auto simp: mset_place)

lemma place_equal: "\<forall>y \<in> set xs. \<not> num_lt (Fin 0) (cmp x y) \<Longrightarrow> place cmp x xs = x # xs"
  by (cases xs) auto

lemma js_sort_zero: "js_sort (\<lambda>a b. Fin 0) xs = xs"
  by (induction xs) (auto simp: place_equal)

lemma render_frame [simp]:
  "items (state_of (render h s)) = items s"
  "filteredItems (state_of (render h s)) = filteredItems s"
  "page (state_of (render h s)) = page s"
  "store (state_of (render h s)) = store s"
  "next_ref (state_of (render h s)) = next_ref s"
  "loadingIndicator (state_of (render h s)) = loadingIndicator s"
  "errorContainer (state_of (render h s)) = errorContainer s"
  "effects (state_of (render h s)) = effects s"
  by (auto simp: render_def Let_def split: option.splits)

lemma state_of_and_then:
  "state_of (and_then r f) = (case r of Normal s \<Rightarrow> state_of (f s) | Throw e s \<Rightarrow> s)"
  by (simp add: and_then_def split: outcome.splits)

text \<open>What each handler leaves in the fields, whether its final render throws or not.\<close>

lemma onSortChange_fields:
  "items (state_of (onSortChange h e s)) = items s"
  "filteredItems (state_of (onSortChange h e s)) = next_ref s"
  "page (state_of (onSortChange h e s)) = 1"
  "next_ref (state_of (onSortChange h e s)) = Suc (next_ref s)"
  "store (state_of (onSortChange h e s)) =
     (store s)(next_ref s := js_sort (sortComparator h (orEmpty e)) (filteredArray s))"
  by (simp_all add: onSortChange_def alloc_def Let_def filteredArray_def)

lemma onFilterChange_fields:
  "items (state_of (onFilterChange h e s)) = items s"
  "filteredItems (state_of (onFilterChange h e s)) = next_ref s"
  "page (state_of (onFilterChange h e s)) = 1"
  "next_ref (state_of (onFilterChange h e s)) = Suc (next_ref s)"
  "store (state_of (onFilterChange h e s)) =
     (store s)(next_ref s := (if orEmpty e = [] then itemsArray s
                              else filter (filterMatch (toLowerCase (orEmpty e))) (itemsArray s)))"
  by (simp_all add: onFilterChange_def alloc_def Let_def itemsArray_def)

lemma onSearchInput_nonempty:
  assumes "toLowerCase (trim (orEmpty e)) \<noteq> []"
  shows "items (state_of (onSearchInput h e s)) = items s"
    and "filteredItems (state_of (onSearchInput h e s)) = next_ref s"
    and "page (state_of (onSearchInput h e s)) = 1"
    and "next_ref (state_of (onSearchInput h e s)) = Suc (next_ref s)"
    and "store (state_of (onSearchInput h e s)) =
           (store s)(next_ref s := filter (searchMatch (toLowerCase (trim (orEmpty e)))) (itemsArray s))"
  using assms
  by (simp_all add: onSearchInput_def and_then_def alloc_def Let_def itemsArray_def)

lemma onSearchInput_empty:
  assumes "toLowerCase (trim (orEmpty e)) = []"
  shows "items (state_of (onSearchInput h e s)) = items s"
    and "filteredItems (state_of (onSearchInput h e s)) = next_ref s"
    and "page (state_of (onSearchInput h e s)) = 1"
    and "next_ref (state_of (onSearchInput h e s)) = Suc (next_ref s)"
    and "store (state_of (onSearchInput h e s)) = store (state_of (onFilterChange h (filterSelect s) s))"
proof -
  let ?r = "onFilterChange h (filterSelect s) s"
  have eq: "onSearchInput h e s = and_then ?r (\<lambda>s'. render h (s'\<lparr>page := 1\<rparr>))"
    using assms by (simp add: onSearchInput_def)
  have st: "state_of (onSearchInput h e s)
            = (case ?r of Normal s1 \<Rightarrow> state_of (render h (s1\<lparr>page := 1\<rparr>)) | Throw err s1 \<Rightarrow> s1)"
    by (simp only: eq state_of_and_then)
  note f = onFilterChange_fields [of h "filterSelect s" s]
  show "items (state_of (onSearchInput h e s)) = items s"
    using f(1) by (cases ?r) (simp_all add: st)
  show "filteredItems (state_of (onSearchInput h e s)) = next_ref s"
    using f(2) by (cases ?r) (simp_all add: st)
  show "page (state_of (onSearchInput h e s)) = 1"
    using f(3) by (cases ?r) (simp_all add: st)
  show "next_ref (state_of (onSearchInput h e s)) = Suc (next_ref s)"
    using f(4) by (cases ?r) (simp_all add: st)
  show "store (state_of (onSearchInput h e s)) = store (state_of ?r)"
    by (cases ?r) (simp_all add: st)
qed

lemma num_sub_NaN_right: "num_sub x NaN = NaN"
  by (cases x) simp_all

lemma parseMinutes_12: "parseMinutes (Some (Text ''12'')) = NaN"
  by (simp add: parseMinutes_def parseInt_def at_index_def lookaheadMin_def isDigit_def
      isSpace_def toLowerCase_def lowerChar_def)

lemma sample_page_arrays:
  "itemsArray sample_page = sample_entries"
  "filteredArray sample_page = sample_entries"
  "items sample_page < next_ref sample_page"
  "filterSelect sample_page = Some ''Startups''"
  "listContainer sample_page = Some []"
  "page sample_page * perPage sample_page = 10"
  by (simp_all add: itemsArray_def filteredArray_def sample_page_def with_items_def
      full_page_def BlogList_def)


subsection \<open>Sorting\<close>

text \<open>
  Claim C3. Sorting by \<^verbatim>\<open>reading_time\<close> is claimed to order entries by the number
  extracted from the field, with a fallback to the first run of digits anywhere in a
  string, so that the values "5 min read", "12", 7, "no time" come out as 5, 7, 12,
  "no time". The code reads \<^verbatim>\<open>m[1]\<close> also from the match of the fallback expression
  \<^verbatim>\<open>/\d+/\<close>, which has no capture group: \<^verbatim>\<open>parseMinutes("12")\<close> is \<open>NaN\<close>, the comparator
  returns \<open>NaN\<close> whenever one side is that entry, and the sort leaves the four entries
  in the order 5, "12", 7, "no time".
\<close>

theorem reading_time_fallback_yields_NaN:
  "parseMinutes (Some (Text ''12'')) = NaN
   \<and> (\<forall>b. sortComparator h ''reading_time'' (bare\<lparr>reading_time := Some (Text ''12'')\<rparr>) b = NaN
          \<and> sortComparator h ''reading_time'' b (bare\<lparr>reading_time := Some (Text ''12'')\<rparr>) = NaN)
   \<and> map reading_time
        (filteredArray (state_of (onSortChange h (Some ''reading_time'')
           (with_items
              (map (\<lambda>r. bare\<lparr>reading_time := Some r\<rparr>)
                 [Text ''5 min read'', Text ''12'', Minutes (Fin 7), Text ''no time''])
              full_page))))
       = [Some (Text ''5 min read''), Some (Text ''12''), Some (Minutes (Fin 7)),
          Some (Text ''no time'')]"
proof (intro conjI allI)
  show "parseMinutes (Some (Text ''12'')) = NaN"
    by (rule parseMinutes_12)
next
  fix b
  show "sortComparator h ''reading_time'' (bare\<lparr>reading_time := Some (Text ''12'')\<rparr>) b = NaN"
    by (simp add: sortComparator_def parseMinutes_12)
  show "sortComparator h ''reading_time'' b (bare\<lparr>reading_time := Some (Text ''12'')\<rparr>) = NaN"
    by (simp add: sortComparator_def parseMinutes_12 num_sub_NaN_right)
next
  show "map reading_time
        (filteredArray (state_of (onSortChange h (Some ''reading_time'')
           (with_items
              (map (\<lambda>r. bare\<lparr>reading_time := Some r\<rparr>)
                 [Text ''5 min read'', Text ''12'', Minutes (Fin 7), Text ''no time''])
              full_page))))
       = [Some (Text ''5 min read''), Some (Text ''12''), Some (Minutes (Fin 7)),
          Some (Text ''no time'')]"
    by (simp add: onSortChange_def alloc_def filteredArray_def with_items_def full_page_def
        BlogList_def bare_def sortComparator_def orEmpty_def parseMinutes_def parseInt_def
        at_index_def lookaheadMin_def isDigit_def isSpace_def toLowerCase_def lowerChar_def
        digitsValue_def MAX_SAFE_INTEGER_def Let_def)
qed


text \<open>
  Claim C9. For every sort criterion \<^verbatim>\<open>onSortChange\<close> leaves in \<open>filteredItems\<close> a
  permutation of the array it held before the call (the same entries with the same
  multiplicities, so the sort works within the active filter or search), and for a
  criterion other than date, reading_time and category the array has the same entries
  in the same order.
\<close>

theorem onSortChange_permutes:
  "mset (filteredArray (state_of (onSortChange h e s))) = mset (filteredArray s)
   \<and> (orEmpty e \<notin> {''date'', ''reading_time'', ''category''}
        \<longrightarrow> filteredArray (state_of (onSortChange h e s)) = filteredArray s)"
proof -
  have arr: "filteredArray (state_of (onSortChange h e s))
             = js_sort (sortComparator h (orEmpty e)) (filteredArray s)"
    unfolding filteredArray_def [of "state_of (onSortChange h e s)"]
    by (simp add: onSortChange_fields)
  have "sortComparator h (orEmpty e) = (\<lambda>a b. Fin 0)"
    if "orEmpty e \<notin> {''date'', ''reading_time'', ''category''}"
    using that by (auto simp: sortComparator_def fun_eq_iff)
  then show ?thesis
    by (auto simp: arr mset_js_sort js_sort_zero)
qed

theorem onSortChange_permutes_witness:
  "orEmpty (Some ''none'') \<notin> {''date'', ''reading_time'', ''category''}
   \<and> filteredArray (state_of (onSortChange plain_host (Some ''none'') sample_page))
     = sample_entries"
proof -
  have c: "orEmpty (Some ''none'') \<notin> {''date'', ''reading_time'', ''category''}"
    by (simp add: orEmpty_def)
  with onSortChange_permutes [of plain_host "Some ''none''" sample_page]
  show ?thesis by (simp add: sample_page_arrays)
qed


subsection \<open>Effects of the handlers on the state\<close>



text \<open>
  Claim C10. None of the sort, filter and search handlers changes \<open>items\<close>: the field
  refers to the same array after the call, and that array has the same entries in the
  same order. The sort is done in place on a copy of the filtered array, and the
  filter and the search build new arrays.
\<close>

theorem handlers_leave_items:
  assumes "items s < next_ref s"
  shows "items (state_of (onSortChange h e s)) = items s
         \<and> itemsArray (state_of (onSortChange h e s)) = itemsArray s
         \<and> items (state_of (onFilterChange h e s)) = items s
         \<and> itemsArray (state_of (onFilterChange h e s)) = itemsArray s
         \<and> items (state_of (onSearchInput h e s)) = items s
         \<and> itemsArray (state_of (onSearchInput h e s)) = itemsArray s"
proof (cases "toLowerCase (trim (orEmpty e)) = []")
  case True
  with assms show ?thesis
    by (simp add: itemsArray_def onSortChange_fields onFilterChange_fields onSearchInput_empty)
next
  case False
  with assms show ?thesis
    by (simp add: itemsArray_def onSortChange_fields onFilterChange_fields onSearchInput_nonempty)
qed

theorem handlers_leave_items_witness:
  "items sample_page < next_ref sample_page
   \<and> itemsArray (state_of (onSortChange plain_host (Some ''category'') sample_page))
     = sample_entries
   \<and> itemsArray (state_of (onSearchInput plain_host (Some ''react'') sample_page))
     = sample_entries"
proof -
  have a: "items sample_page < next_ref sample_page"
    by (rule sample_page_arrays)
  from handlers_leave_items [OF a, of plain_host "Some ''category''"]
       handlers_leave_items [OF a, of plain_host "Some ''react''"] a
  show ?thesis by (simp add: sample_page_arrays)
qed


subsection \<open>Filtering and searching\<close>

lemma filterMatch_keeps: "filterMatch (toLowerCase v) it = filterKeeps v it"
  by (cases "tags it") (auto simp: filterMatch_def filterKeeps_def ci_equal_def image_iff, metis+)

lemma filteredArray_onFilterChange:
  "filteredArray (state_of (onFilterChange h e s))
   = (if orEmpty e = [] then itemsArray s else filter (filterKeeps (orEmpty e)) (itemsArray s))"
proof -
  have "filterMatch (toLowerCase (orEmpty e)) = filterKeeps (orEmpty e)"
    by (rule ext) (rule filterMatch_keeps)
  then show ?thesis
    unfolding filteredArray_def [of "state_of (onFilterChange h e s)"]
    by (simp add: onFilterChange_fields)
qed

lemma toLowerCase_Gadgets: "toLowerCase ''Gadgets'' = ''gadgets''" "toLowerCase ''GADGETS'' = ''gadgets''"
  "toLowerCase ''Writing'' = ''writing''" "toLowerCase ''Startups'' = ''startups''"
  by code_simp+

lemma keeps_Gadgets:
  "filter (filterKeeps ''Gadgets'') sample_entries = [sample_entries ! 0, sample_entries ! 2]"
  by (simp add: sample_entries_def filterKeeps_def ci_equal_def orEmpty_def bare_def
      toLowerCase_Gadgets)

lemma filteredArray_onSearchInput:
  "filteredArray (state_of (onSearchInput h e s))
   = (if toLowerCase (trim (orEmpty e)) = []
      then filteredArray (state_of (onFilterChange h (filterSelect s) s))
      else filter (searchKeeps (toLowerCase (trim (orEmpty e)))) (itemsArray s))"
proof (cases "toLowerCase (trim (orEmpty e)) = []")
  case True
  then show ?thesis
    by (simp add: filteredArray_def onSearchInput_empty onFilterChange_fields)
next
  case False
  have "searchMatch (toLowerCase (trim (orEmpty e))) = searchKeeps (toLowerCase (trim (orEmpty e)))"
    by (rule ext) (simp add: searchMatch_def searchKeeps_def)
  with False show ?thesis
    by (simp add: filteredArray_def onSearchInput_nonempty)
qed

lemma query_examples:
  "toLowerCase (trim (orEmpty (Some '' React ''))) = ''react''"
  "toLowerCase (trim (orEmpty (Some ''  ''))) = []"
  by code_simp+

lemma keeps_examples:
  "filter (searchKeeps ''react'') sample_entries = [sample_entries ! 0]"
  "filter (filterKeeps ''Startups'') sample_entries = [sample_entries ! 1]"
  by code_simp+


text \<open>
  Claim C4. For every item set and every non-empty filter value \<open>v\<close>, \<^verbatim>\<open>onFilterChange\<close>
  leaves in \<open>filteredItems\<close> exactly the entries of \<open>items\<close>, in their order, whose category
  equals \<open>v\<close> up to case or whose tags contain \<open>v\<close> up to case; for the empty value it
  leaves the full \<open>items\<close>.
\<close>

theorem onFilterChange_keeps_matching:
  "(orEmpty e \<noteq> []
      \<longrightarrow> filteredArray (state_of (onFilterChange h e s))
          = filter (filterKeeps (orEmpty e)) (itemsArray s))
   \<and> (orEmpty e = [] \<longrightarrow> filteredArray (state_of (onFilterChange h e s)) = itemsArray s)"
  by (simp add: filteredArray_onFilterChange)

theorem onFilterChange_keeps_matching_witness:
  "orEmpty (Some ''Gadgets'') \<noteq> [] \<and> orEmpty None = []
   \<and> filteredArray (state_of (onFilterChange plain_host (Some ''Gadgets'') sample_page))
     = [sample_entries ! 0, sample_entries ! 2]
   \<and> filteredArray (state_of (onFilterChange plain_host None sample_page)) = sample_entries"
proof -
  have a: "orEmpty (Some ''Gadgets'') \<noteq> []" and b: "orEmpty None = []"
    by (simp_all add: orEmpty_def)
  have c: "orEmpty (Some ''Gadgets'') = ''Gadgets''"
    by (simp add: orEmpty_def)
  from onFilterChange_keeps_matching [of "Some ''Gadgets''" plain_host sample_page]
       onFilterChange_keeps_matching [of None plain_host sample_page] a b
  show ?thesis
    by (simp add: c sample_page_arrays keeps_Gadgets)
qed


text \<open>
  Claim C5. For a query that is not empty after trimming and lower-casing,
  \<^verbatim>\<open>onSearchInput\<close> keeps exactly the entries whose title or content contains the query
  up to case; for an empty query it leaves what \<^verbatim>\<open>onFilterChange\<close> leaves for the value
  selected in the filter control, so with a filter selected the filtered view comes
  back, not the full set.
\<close>

theorem onSearchInput_keeps_matching:
  "(toLowerCase (trim (orEmpty e)) \<noteq> []
      \<longrightarrow> filteredArray (state_of (onSearchInput h e s))
          = filter (searchKeeps (toLowerCase (trim (orEmpty e)))) (itemsArray s))
   \<and> (toLowerCase (trim (orEmpty e)) = []
      \<longrightarrow> filteredArray (state_of (onSearchInput h e s))
          = filteredArray (state_of (onFilterChange h (filterSelect s) s)))
   \<and> (toLowerCase (trim (orEmpty e)) = [] \<and> orEmpty (filterSelect s) \<noteq> []
      \<longrightarrow> filteredArray (state_of (onSearchInput h e s))
          = filter (filterKeeps (orEmpty (filterSelect s))) (itemsArray s))"
  by (simp add: filteredArray_onSearchInput filteredArray_onFilterChange)

theorem onSearchInput_keeps_matching_witness:
  "toLowerCase (trim (orEmpty (Some '' React ''))) \<noteq> []
   \<and> filteredArray (state_of (onSearchInput plain_host (Some '' React '') sample_page))
     = [sample_entries ! 0]
   \<and> toLowerCase (trim (orEmpty (Some ''  ''))) = []
   \<and> orEmpty (filterSelect sample_page) \<noteq> []
   \<and> filteredArray (state_of (onSearchInput plain_host (Some ''  '') sample_page))
     = [sample_entries ! 1]"
proof -
  have q1: "toLowerCase (trim (orEmpty (Some '' React ''))) \<noteq> []"
    and q2: "toLowerCase (trim (orEmpty (Some ''  ''))) = []"
    by (simp_all add: query_examples)
  have f: "orEmpty (filterSelect sample_page) = ''Startups''"
    by (simp add: sample_page_arrays orEmpty_def)
  from onSearchInput_keeps_matching [of "Some '' React ''" plain_host sample_page,
      THEN conjunct1] q1
  have r1: "filteredArray (state_of (onSearchInput plain_host (Some '' React '') sample_page))
            = filter (searchKeeps ''react'') (itemsArray sample_page)"
    by (simp add: query_examples)
  from onSearchInput_keeps_matching [of "Some ''  ''" plain_host sample_page,
      THEN conjunct2, THEN conjunct2] q2
  have r2: "filteredArray (state_of (onSearchInput plain_host (Some ''  '') sample_page))
            = filter (filterKeeps ''Startups'') (itemsArray sample_page)"
    by (simp add: f)
  show ?thesis
  proof (intro conjI)
    show "toLowerCase (trim (orEmpty (Some '' React ''))) \<noteq> []"
      by (rule q1)
    show "filteredArray (state_of (onSearchInput plain_host (Some '' React '') sample_page))
          = [sample_entries ! 0]"
      by (simp add: r1 sample_page_arrays keeps_examples)
    show "toLowerCase (trim (orEmpty (Some ''  ''))) = []"
      by (rule q2)
    show "orEmpty (filterSelect sample_page) \<noteq> []"
      by (simp add: f)
    show "filteredArray (state_of (onSearchInput plain_host (Some ''  '') sample_page))
          = [sample_entries ! 1]"
      by (simp add: r2 sample_page_arrays keeps_examples)
  qed
qed


subsection \<open>Rendering\<close>

lemma startsWith_append: "startsWith (p @ s) p"
  by (induction p) simp_all

lemma includes_strI: "s = pre @ q @ suf \<Longrightarrow> includes_str s q"
proof (induction pre arbitrary: s)
  case Nil
  then have s: "s = q @ suf" by simp
  show ?case
  proof (cases s)
    case Nil
    with s show ?thesis by simp
  next
    case (Cons c cs)
    have "startsWith s q"
      unfolding s by (rule startsWith_append)
    with Cons show ?thesis by simp
  qed
next
  case (Cons c pre)
  then show ?case by simp
qed

lemma tagSpan_fun: \<open>tagSpan = (\<lambda>t. ''<span class="tag">'' @ t @ ''</span>'')\<close>
  by (rule ext) (simp add: tagSpan_def)

text \<open>
  The markup of one entry: the opening and the closing tag of the article, and between
  them the image, the title, the author, the date, the reading time, the excerpt and
  the tags, each in its element.
\<close>

lemma article_block:
  \<open>\<exists>mid. article h it
              = ''\<newline>                <article class="blog-item">'' @ mid
                @ ''</article>\<newline>        ''
          \<and> includes_str mid
              (''<img src="''
                @ (case image it of None \<Rightarrow> ''undefined'' | Some t \<Rightarrow> t)
                @ ''" alt="" class="blog-image" />'')
          \<and> includes_str mid
              (''<h3 class="blog-title">''
                @ (case title it of None \<Rightarrow> ''undefined'' | Some t \<Rightarrow> t)
                @ ''</h3>'')
          \<and> includes_str mid
              (''<span class="blog-author">''
                @ (case author it of None \<Rightarrow> ''undefined'' | Some t \<Rightarrow> t)
                @ ''</span>'')
          \<and> includes_str mid
              (''<time class="blog-date">''
                @ toLocaleDateString h (dateValue h (published_date it))
                @ ''</time>'')
          \<and> includes_str mid
              (''<span class="blog-reading-time">''
                @ (case reading_time it of None \<Rightarrow> ''undefined'' | Some (Minutes n) \<Rightarrow> numberToString h n | Some (Text t) \<Rightarrow> t)
                @ ''</span>'')
          \<and> includes_str mid
              (''<p class="blog-excerpt">''
                @ (case content it of None \<Rightarrow> ''undefined'' | Some t \<Rightarrow> t)
                @ ''</p>'')
          \<and> includes_str mid
              (''<div class="blog-tags">''
                @ concat (map (\<lambda>t. ''<span class="tag">''
                @ t
                @ ''</span>'') (case tags it of None \<Rightarrow> [] | Some ts \<Rightarrow> ts))
                @ ''</div>'')\<close>
proof -
  define mid where \<open>mid = ''\<newline>                    <img src="''
        @ (case image it of None \<Rightarrow> ''undefined'' | Some t \<Rightarrow> t)
        @ ''" alt="" class="blog-image" />\<newline>                    <div class="blog-content">\<newline>                        <h3 class="blog-title">''
        @ (case title it of None \<Rightarrow> ''undefined'' | Some t \<Rightarrow> t)
        @ ''</h3>\<newline>                        <div class="blog-meta">\<newline>                            <span class="blog-author">''
        @ (case author it of None \<Rightarrow> ''undefined'' | Some t \<Rightarrow> t)
        @ ''</span>\<newline>                            <time class="blog-date">''
        @ toLocaleDateString h (dateValue h (published_date it))
        @ ''</time>\<newline>                            <span class="blog-reading-time">''
        @ (case reading_time it of None \<Rightarrow> ''undefined'' | Some (Minutes n) \<Rightarrow> numberToString h n | Some (Text t) \<Rightarrow> t)
        @ ''</span>\<newline>                        </div>\<newline>                        <p class="blog-excerpt">''
        @ (case content it of None \<Rightarrow> ''undefined'' | Some t \<Rightarrow> t)
        @ ''</p>\<newline>                        <div class="blog-tags">''
        @ concat (map (\<lambda>t. ''<span class="tag">''
        @ t
        @ ''</span>'') (case tags it of None \<Rightarrow> [] | Some ts \<Rightarrow> ts))
        @ ''</div>\<newline>                    </div>\<newline>                ''\<close>
  have a: \<open>article h it = ''\<newline>                <article class="blog-item">'' @ mid
      @ ''</article>\<newline>        ''\<close>
    by (simp add: article_def mid_def interpolate_def interpolate_reading_def tagSpan_fun)
  have i0: \<open>includes_str mid
      (''<img src="''
        @ (case image it of None \<Rightarrow> ''undefined'' | Some t \<Rightarrow> t)
        @ ''" alt="" class="blog-image" />'')\<close>
    by (rule includes_strI [of _
          \<open>''\<newline>                    ''\<close> _
          \<open>''\<newline>                    <div class="blog-content">\<newline>                        <h3 class="blog-title">''
            @ (case title it of None \<Rightarrow> ''undefined'' | Some t \<Rightarrow> t)
            @ ''</h3>\<newline>                        <div class="blog-meta">\<newline>                            <span class="blog-author">''
            @ (case author it of None \<Rightarrow> ''undefined'' | Some t \<Rightarrow> t)
            @ ''</span>\<newline>                            <time class="blog-date">''
            @ toLocaleDateString h (dateValue h (published_date it))
            @ ''</time>\<newline>                            <span class="blog-reading-time">''
            @ (case reading_time it of None \<Rightarrow> ''undefined'' | Some (Minutes n) \<Rightarrow> numberToString h n | Some (Text t) \<Rightarrow> t)
            @ ''</span>\<newline>                        </div>\<newline>                        <p class="blog-excerpt">''
            @ (case content it of None \<Rightarrow> ''undefined'' | Some t \<Rightarrow> t)
            @ ''</p>\<newline>                        <div class="blog-tags">''
            @ concat (map (\<lambda>t. ''<span class="tag">''
            @ t
            @ ''</span>'') (case tags it of None \<Rightarrow> [] | Some ts \<Rightarrow> ts))
            @ ''</div>\<newline>                    </div>\<newline>                ''\<close>])
       (simp add: mid_def)
  have i1: \<open>includes_str mid
      (''<h3 class="blog-title">''
        @ (case title it of None \<Rightarrow> ''undefined'' | Some t \<Rightarrow> t)
        @ ''</h3>'')\<close>
    by (rule includes_strI [of _
          \<open>''\<newline>                    <img src="''
            @ (case image it of None \<Rightarrow> ''undefined'' | Some t \<Rightarrow> t)
            @ ''" alt="" class="blog-image" />\<newline>                    <div class="blog-content">\<newline>                        ''\<close> _
          \<open>''\<newline>                        <div class="blog-meta">\<newline>                            <span class="blog-author">''
            @ (case author it of None \<Rightarrow> ''undefined'' | Some t \<Rightarrow> t)
            @ ''</span>\<newline>                            <time class="blog-date">''
            @ toLocaleDateString h (dateValue h (published_date it))
            @ ''</time>\<newline>                            <span class="blog-reading-time">''
            @ (case reading_time it of None \<Rightarrow> ''undefined'' | Some (Minutes n) \<Rightarrow> numberToString h n | Some (Text t) \<Rightarrow> t)
            @ ''</span>\<newline>                        </div>\<newline>                        <p class="blog-excerpt">''
            @ (case content it of None \<Rightarrow> ''undefined'' | Some t \<Rightarrow> t)
            @ ''</p>\<newline>                        <div class="blog-tags">''
            @ concat (map (\<lambda>t. ''<span class="tag">''
            @ t
            @ ''</span>'') (case tags it of None \<Rightarrow> [] | Some ts \<Rightarrow> ts))
            @ ''</div>\<newline>                    </div>\<newline>                ''\<close>])
       (simp add: mid_def)
  have i2: \<open>includes_str mid
      (''<span class="blog-author">''
        @ (case author it of None \<Rightarrow> ''undefined'' | Some t \<Rightarrow> t)
        @ ''</span>'')\<close>
    by (rule includes_strI [of _
          \<open>''\<newline>                    <img src="''
            @ (case image it of None \<Rightarrow> ''undefined'' | Some t \<Rightarrow> t)
            @ ''" alt="" class="blog-image" />\<newline>                    <div class="blog-content">\<newline>                        <h3 class="blog-title">''
            @ (case title it of None \<Rightarrow> ''undefined'' | Some t \<Rightarrow> t)
            @ ''</h3>\<newline>                        <div class="blog-meta">\<newline>                            ''\<close> _
          \<open>''\<newline>                            <time class="blog-date">''
            @ toLocaleDateString h (dateValue h (published_date it))
            @ ''</time>\<newline>                            <span class="blog-reading-time">''
            @ (case reading_time it of None \<Rightarrow> ''undefined'' | Some (Minutes n) \<Rightarrow> numberToString h n | Some (Text t) \<Rightarrow> t)
            @ ''</span>\<newline>                        </div>\<newline>                        <p class="blog-excerpt">''
            @ (case content it of None \<Rightarrow> ''undefined'' | Some t \<Rightarrow> t)
            @ ''</p>\<newline>                        <div class="blog-tags">''
            @ concat (map (\<lambda>t. ''<span class="tag">''
            @ t
            @ ''</span>'') (case tags it of None \<Rightarrow> [] | Some ts \<Rightarrow> ts))
            @ ''</div>\<newline>                    </div>\<newline>                ''\<close>])
       (simp add: mid_def)
  have i3: \<open>includes_str mid
      (''<time class="blog-date">''
        @ toLocaleDateString h (dateValue h (published_date it))
        @ ''</time>'')\<close>
    by (rule includes_strI [of _
          \<open>''\<newline>                    <img src="''
            @ (case image it of None \<Rightarrow> ''undefined'' | Some t \<Rightarrow> t)
            @ ''" alt="" class="blog-image" />\<newline>                    <div class="blog-content">\<newline>                        <h3 class="blog-title">''
            @ (case title it of None \<Rightarrow> ''undefined'' | Some t \<Rightarrow> t)
            @ ''</h3>\<newline>                        <div class="blog-meta">\<newline>                            <span class="blog-author">''
            @ (case author it of None \<Rightarrow> ''undefined'' | Some t \<Rightarrow> t)
            @ ''</span>\<newline>                            ''\<close> _
          \<open>''\<newline>                            <span class="blog-reading-time">''
            @ (case reading_time it of None \<Rightarrow> ''undefined'' | Some (Minutes n) \<Rightarrow> numberToString h n | Some (Text t) \<Rightarrow> t)
            @ ''</span>\<newline>                        </div>\<newline>                        <p class="blog-excerpt">''
            @ (case content it of None \<Rightarrow> ''undefined'' | Some t \<Rightarrow> t)
            @ ''</p>\<newline>                        <div class="blog-tags">''
            @ concat (map (\<lambda>t. ''<span class="tag">''
            @ t
            @ ''</span>'') (case tags it of None \<Rightarrow> [] | Some ts \<Rightarrow> ts))
            @ ''</div>\<newline>                    </div>\<newline>                ''\<close>])
       (simp add: mid_def)
  have i4: \<open>includes_str mid
      (''<span class="blog-reading-time">''
        @ (case reading_time it of None \<Rightarrow> ''undefined'' | Some (Minutes n) \<Rightarrow> numberToString h n | Some (Text t) \<Rightarrow> t)
        @ ''</span>'')\<close>
    by (rule includes_strI [of _
          \<open>''\<newline>                    <img src="''
            @ (case image it of None \<Rightarrow> ''undefined'' | Some t \<Rightarrow> t)
            @ ''" alt="" class="blog-image" />\<newline>                    <div class="blog-content">\<newline>                        <h3 class="blog-title">''
            @ (case title it of None \<Rightarrow> ''undefined'' | Some t \<Rightarrow> t)
            @ ''</h3>\<newline>                        <div class="blog-meta">\<newline>                            <span class="blog-author">''
            @ (case author it of None \<Rightarrow> ''undefined'' | Some t \<Rightarrow> t)
            @ ''</span>\<newline>                            <time class="blog-date">''
            @ toLocaleDateString h (dateValue h (published_date it))
            @ ''</time>\<newline>                            ''\<close> _
          \<open>''\<newline>                        </div>\<newline>                        <p class="blog-excerpt">''
            @ (case content it of None \<Rightarrow> ''undefined'' | Some t \<Rightarrow> t)
            @ ''</p>\<newline>                        <div class="blog-tags">''
            @ concat (map (\<lambda>t. ''<span class="tag">''
            @ t
            @ ''</span>'') (case tags it of None \<Rightarrow> [] | Some ts \<Rightarrow> ts))
            @ ''</div>\<newline>                    </div>\<newline>                ''\<close>])
       (simp add: mid_def)
  have i5: \<open>includes_str mid
      (''<p class="blog-excerpt">''
        @ (case content it of None \<Rightarrow> ''undefined'' | Some t \<Rightarrow> t)
        @ ''</p>'')\<close>
    by (rule includes_strI [of _
          \<open>''\<newline>                    <img src="''
            @ (case image it of None \<Rightarrow> ''undefined'' | Some t \<Rightarrow> t)
            @ ''" alt="" class="blog-image" />\<newline>                    <div class="blog-content">\<newline>                        <h3 class="blog-title">''
            @ (case title it of None \<Rightarrow> ''undefined'' | Some t \<Rightarrow> t)
            @ ''</h3>\<newline>                        <div class="blog-meta">\<newline>                            <span class="blog-author">''
            @ (case author it of None \<Rightarrow> ''undefined'' | Some t \<Rightarrow> t)
            @ ''</span>\<newline>                            <time class="blog-date">''
            @ toLocaleDateString h (dateValue h (published_date it))
            @ ''</time>\<newline>                            <span class="blog-reading-time">''
            @ (case reading_time it of None \<Rightarrow> ''undefined'' | Some (Minutes n) \<Rightarrow> numberToString h n | Some (Text t) \<Rightarrow> t)
            @ ''</span>\<newline>                        </div>\<newline>                        ''\<close> _
          \<open>''\<newline>                        <div class="blog-tags">''
            @ concat (map (\<lambda>t. ''<span class="tag">''
            @ t
            @ ''</span>'') (case tags it of None \<Rightarrow> [] | Some ts \<Rightarrow> ts))
            @ ''</div>\<newline>                    </div>\<newline>                ''\<close>])
       (simp add: mid_def)
  have i6: \<open>includes_str mid
      (''<div class="blog-tags">''
        @ concat (map (\<lambda>t. ''<span class="tag">''
        @ t
        @ ''</span>'') (case tags it of None \<Rightarrow> [] | Some ts \<Rightarrow> ts))
        @ ''</div>'')\<close>
    by (rule includes_strI [of _
          \<open>''\<newline>                    <img src="''
            @ (case image it of None \<Rightarrow> ''undefined'' | Some t \<Rightarrow> t)
            @ ''" alt="" class="blog-image" />\<newline>                    <div class="blog-content">\<newline>                        <h3 class="blog-title">''
            @ (case title it of None \<Rightarrow> ''undefined'' | Some t \<Rightarrow> t)
            @ ''</h3>\<newline>                        <div class="blog-meta">\<newline>                            <span class="blog-author">''
            @ (case author it of None \<Rightarrow> ''undefined'' | Some t \<Rightarrow> t)
            @ ''</span>\<newline>                            <time class="blog-date">''
            @ toLocaleDateString h (dateValue h (published_date it))
            @ ''</time>\<newline>                            <span class="blog-reading-time">''
            @ (case reading_time it of None \<Rightarrow> ''undefined'' | Some (Minutes n) \<Rightarrow> numberToString h n | Some (Text t) \<Rightarrow> t)
            @ ''</span>\<newline>                        </div>\<newline>                        <p class="blog-excerpt">''
            @ (case content it of None \<Rightarrow> ''undefined'' | Some t \<Rightarrow> t)
            @ ''</p>\<newline>                        ''\<close> _
          \<open>''\<newline>                    </div>\<newline>                ''\<close>])
       (simp add: mid_def)
  from a i0 i1 i2 i3 i4 i5 i6 show ?thesis
    by blast
qed

lemma render_result:
  assumes "listContainer s \<noteq> None"
  shows \<open>render h s
     = Normal (s\<lparr>listContainer :=
          Some (if take (page s * perPage s) (filteredArray s) = []
                then ''<p class="no-results">No blogs found</p>''
                else concat (map (article h) (take (page s * perPage s) (filteredArray s))))\<rparr>)\<close>
  using assms unfolding render_def Let_def filteredArray_def noResults_def length_0_conv
  by (cases "listContainer s") simp_all

lemma placeholder_has_no_article:
  \<open>\<not> includes_str ''<p class="no-results">No blogs found</p>'' ''<article''\<close>
  by simp

lemma render_examples:
  "listContainer full_page \<noteq> None"
  "filteredArray full_page = []"
  "listContainer (sample_page\<lparr>page := 2, perPage := 1\<rparr>) \<noteq> None"
  "take (page (sample_page\<lparr>page := 2, perPage := 1\<rparr>) * perPage (sample_page\<lparr>page := 2, perPage := 1\<rparr>))
     (filteredArray (sample_page\<lparr>page := 2, perPage := 1\<rparr>))
   = [sample_entries ! 0, sample_entries ! 1]"
proof -
  show "listContainer full_page \<noteq> None"
    by (simp add: full_page_def BlogList_def)
  show "filteredArray full_page = []"
    by (simp add: filteredArray_def full_page_def BlogList_def)
  show "listContainer (sample_page\<lparr>page := 2, perPage := 1\<rparr>) \<noteq> None"
    by (simp add: sample_page_arrays)
  have "filteredArray (sample_page\<lparr>page := 2, perPage := 1\<rparr>) = sample_entries"
    using sample_page_arrays(2) by (simp add: filteredArray_def)
  then show "take (page (sample_page\<lparr>page := 2, perPage := 1\<rparr>) * perPage (sample_page\<lparr>page := 2, perPage := 1\<rparr>))
     (filteredArray (sample_page\<lparr>page := 2, perPage := 1\<rparr>))
   = [sample_entries ! 0, sample_entries ! 1]"
    by (simp add: sample_entries_def)
qed

lemma article_example:
  \<open>article plain_host (sample_entries ! 0)
   = ''\<newline>                <article class="blog-item">\<newline>                    <img src="undefined" alt="" class="blog-image" />\<newline>                    <div class="blog-content">\<newline>                        <h3 class="blog-title">React Basics</h3>\<newline>                        <div class="blog-meta">\<newline>                            <span class="blog-author">undefined</span>\<newline>                            <time class="blog-date">Invalid Date</time>\<newline>                            <span class="blog-reading-time">5 min read</span>\<newline>                        </div>\<newline>                        <p class="blog-excerpt">undefined</p>\<newline>                        <div class="blog-tags"><span class="tag">Gadgets</span></div>\<newline>                    </div>\<newline>                </article>\<newline>        ''\<close>
  by (simp add: article_def sample_entries_def bare_def plain_host_def interpolate_def
      interpolate_reading_def tagSpan_def)

text \<open>
  Claim C6. With a content region present, \<^verbatim>\<open>render\<close> returns normally and sets the
  region to the markup of the first \<open>page * perPage\<close> entries of the filtered array, from
  its start (a cumulative slice, not a window), one article block for each entry; when
  that slice is empty the region is the literal "No blogs found" paragraph, which
  contains no article block.
\<close>

theorem render_shows_first_pages:
  assumes "listContainer s \<noteq> None"
  shows \<open>render h s
     = Normal (s\<lparr>listContainer :=
          Some (if take (page s * perPage s) (filteredArray s) = []
                then ''<p class="no-results">No blogs found</p>''
                else concat (map (article h) (take (page s * perPage s) (filteredArray s))))\<rparr>)
   \<and> \<not> includes_str ''<p class="no-results">No blogs found</p>'' ''<article''
   \<and> (\<forall>it. \<exists>mid. article h it
              = ''\<newline>                <article class="blog-item">'' @ mid
                @ ''</article>\<newline>        ''
          \<and> includes_str mid
              (''<img src="''
                @ (case image it of None \<Rightarrow> ''undefined'' | Some t \<Rightarrow> t)
                @ ''" alt="" class="blog-image" />'')
          \<and> includes_str mid
              (''<h3 class="blog-title">''
                @ (case title it of None \<Rightarrow> ''undefined'' | Some t \<Rightarrow> t)
                @ ''</h3>'')
          \<and> includes_str mid
              (''<span class="blog-author">''
                @ (case author it of None \<Rightarrow> ''undefined'' | Some t \<Rightarrow> t)
                @ ''</span>'')
          \<and> includes_str mid
              (''<time class="blog-date">''
                @ toLocaleDateString h (dateValue h (published_date it))
                @ ''</time>'')
          \<and> includes_str mid
              (''<span class="blog-reading-time">''
                @ (case reading_time it of None \<Rightarrow> ''undefined'' | Some (Minutes n) \<Rightarrow> numberToString h n | Some (Text t) \<Rightarrow> t)
                @ ''</span>'')
          \<and> includes_str mid
              (''<p class="blog-excerpt">''
                @ (case content it of None \<Rightarrow> ''undefined'' | Some t \<Rightarrow> t)
                @ ''</p>'')
          \<and> includes_str mid
              (''<div class="blog-tags">''
                @ concat (map (\<lambda>t. ''<span class="tag">''
                @ t
                @ ''</span>'') (case tags it of None \<Rightarrow> [] | Some ts \<Rightarrow> ts))
                @ ''</div>''))\<close>
  using assms by (intro conjI allI render_result placeholder_has_no_article article_block)

theorem render_shows_first_pages_witness:
  \<open>listContainer full_page \<noteq> None
   \<and> render plain_host full_page
     = Normal (full_page\<lparr>listContainer := Some ''<p class="no-results">No blogs found</p>''\<rparr>)
   \<and> listContainer (sample_page\<lparr>page := 2, perPage := 1\<rparr>) \<noteq> None
   \<and> render plain_host (sample_page\<lparr>page := 2, perPage := 1\<rparr>)
     = Normal (sample_page\<lparr>page := 2, perPage := 1,
         listContainer := Some (article plain_host (sample_entries ! 0)
                                @ article plain_host (sample_entries ! 1))\<rparr>)
   \<and> article plain_host (sample_entries ! 0)
     = ''\<newline>                <article class="blog-item">\<newline>                    <img src="undefined" alt="" class="blog-image" />\<newline>                    <div class="blog-content">\<newline>                        <h3 class="blog-title">React Basics</h3>\<newline>                        <div class="blog-meta">\<newline>                            <span class="blog-author">undefined</span>\<newline>                            <time class="blog-date">Invalid Date</time>\<newline>                            <span class="blog-reading-time">5 min read</span>\<newline>                        </div>\<newline>                        <p class="blog-excerpt">undefined</p>\<newline>                        <div class="blog-tags"><span class="tag">Gadgets</span></div>\<newline>                    </div>\<newline>                </article>\<newline>        ''\<close>
proof (intro conjI)
  show a: "listContainer full_page \<noteq> None"
    by (rule render_examples)
  show b: "listContainer (sample_page\<lparr>page := 2, perPage := 1\<rparr>) \<noteq> None"
    by (rule render_examples)
  from render_shows_first_pages [OF a, of plain_host, THEN conjunct1]
  show \<open>render plain_host full_page
     = Normal (full_page\<lparr>listContainer := Some ''<p class="no-results">No blogs found</p>''\<rparr>)\<close>
    by (simp add: render_examples)
  from render_shows_first_pages [OF b, of plain_host, THEN conjunct1]
  show "render plain_host (sample_page\<lparr>page := 2, perPage := 1\<rparr>)
     = Normal (sample_page\<lparr>page := 2, perPage := 1,
         listContainer := Some (article plain_host (sample_entries ! 0)
                                @ article plain_host (sample_entries ! 1))\<rparr>)"
    by (simp only: render_examples) simp
  show \<open>article plain_host (sample_entries ! 0)
   = ''\<newline>                <article class="blog-item">\<newline>                    <img src="undefined" alt="" class="blog-image" />\<newline>                    <div class="blog-content">\<newline>                        <h3 class="blog-title">React Basics</h3>\<newline>                        <div class="blog-meta">\<newline>                            <span class="blog-author">undefined</span>\<newline>                            <time class="blog-date">Invalid Date</time>\<newline>                            <span class="blog-reading-time">5 min read</span>\<newline>                        </div>\<newline>                        <p class="blog-excerpt">undefined</p>\<newline>                        <div class="blog-tags"><span class="tag">Gadgets</span></div>\<newline>                    </div>\<newline>                </article>\<newline>        ''\<close>
    by (rule article_example)
qed

subsection \<open>Rounding to a double\<close>

lemma bit_length_599999: "bit_length 599999 = 20"
  by (simp add: bit_length.simps)

lemma to_double_just_below:
  assumes x: "x = 600000 - 1 / 2 ^ 70"
  shows "to_double x = Fin 600000"
proof -
  have pos: "0 < x" "x \<noteq> 0" "\<bar>x\<bar> = x" "1 \<le> x"
    by (simp_all add: x)
  have "\<lfloor>x\<rfloor> = 599999"
    by (rule floor_unique) (simp_all add: x)
  then have "binade x = 19"
    by (simp add: binade_def pos bit_length_599999)
  then have e: "ulp_exponent x = - 33"
    by (simp add: ulp_exponent_def)
  have p: "(2::rat) powi (- 33) = 1 / 2 ^ 33"
    by (simp add: power_int_minus field_simps)
  have "\<lfloor>x * 2 ^ 33\<rfloor> = 600000 * 2 ^ 33 - 1"
    by (rule floor_unique) (simp_all add: x algebra_simps)
  moreover have "1 / 2 < x * 2 ^ 33 - of_int (600000 * 2 ^ 33 - 1)"
    by (simp add: x algebra_simps)
  ultimately have "round_even (x * 2 ^ 33) = 600000 * 2 ^ 33"
    unfolding round_even_def Let_def by simp
  then have "round_magnitude x = 600000"
    unfolding round_magnitude_def e p by simp
  then show ?thesis
    by (simp add: to_double_def pos)
qed

lemma bit_length_upper: "n < 2 ^ bit_length n"
proof (induction n rule: bit_length.induct)
  case (1 n)
  show ?case
  proof (cases "n = 0")
    case True
    then show ?thesis by (simp add: bit_length.simps)
  next
    case False
    with 1 have "n div 2 < 2 ^ bit_length (n div 2)" by simp
    then have "n < 2 * 2 ^ bit_length (n div 2)" by linarith
    with False show ?thesis by (subst bit_length.simps) simp
  qed
qed

lemma bit_length_lower: "0 < n \<Longrightarrow> 2 ^ (bit_length n - 1) \<le> n"
proof (induction n rule: bit_length.induct)
  case (1 n)
  show ?case
  proof (cases "n div 2 = 0")
    case True
    with 1(2) have "n = 1" by (simp add: div_eq_0_iff) 
    then show ?thesis by (simp add: bit_length.simps)
  next
    case False
    with 1 have ih: "2 ^ (bit_length (n div 2) - 1) \<le> n div 2" by simp
    from False have "0 < bit_length (n div 2)" by (subst bit_length.simps) simp
    then have "(2::nat) ^ bit_length (n div 2) = 2 * 2 ^ (bit_length (n div 2) - 1)"
      by (cases "bit_length (n div 2)") simp_all
    with ih have "2 ^ bit_length (n div 2) \<le> n" by linarith
    with 1(2) show ?thesis by (subst bit_length.simps) simp
  qed
qed

lemma bit_length_le: "n < 2 ^ k \<Longrightarrow> bit_length n \<le> k"
proof (rule ccontr)
  assume n: "n < 2 ^ k" and "\<not> bit_length n \<le> k"
  then have k: "k \<le> bit_length n - 1" and pos: "0 < n"
    by (auto simp: bit_length.simps [of n] split: if_splits)
  have "(2::nat) ^ k \<le> 2 ^ (bit_length n - 1)"
    using k by (rule power_increasing) simp
  with bit_length_lower [OF pos] n show False by linarith
qed

lemma bit_length_gt: "2 ^ k \<le> n \<Longrightarrow> k < bit_length n"
proof -
  assume "2 ^ k \<le> n"
  with bit_length_upper [of n] have "(2::nat) ^ k < 2 ^ bit_length n" by linarith
  then show ?thesis by simp
qed

lemma round_even_of_int: "round_even (of_int k) = k"
  by (simp add: round_even_def)

lemma round_even_ge: "of_int k \<le> q \<Longrightarrow> k \<le> round_even q"
proof -
  assume "of_int k \<le> q"
  then have "k \<le> \<lfloor>q\<rfloor>" by (simp add: le_floor_iff)
  moreover have "\<lfloor>q\<rfloor> \<le> round_even q" by (simp add: round_even_def Let_def)
  ultimately show ?thesis by simp
qed

lemma round_magnitude_nonneg: "0 \<le> a \<Longrightarrow> 0 \<le> round_magnitude a"
proof -
  assume "0 \<le> a"
  then have "of_int 0 \<le> a / 2 powi ulp_exponent a"
    by simp
  then have "0 \<le> round_even (a / 2 powi ulp_exponent a)"
    by (rule round_even_ge)
  then show ?thesis
    by (simp add: round_magnitude_def)
qed

text \<open>A positive integer below \<open>2 ^ 53\<close> is a double.\<close>

lemma round_magnitude_exact:
  assumes "0 < n" and "n < 2 ^ 53"
  shows "round_magnitude (of_nat n) = of_nat n"
proof -
  define k where "k = 53 - bit_length n"
  have le: "bit_length n \<le> 53"
    using assms(2) by (rule bit_length_le)
  have ge: "0 < bit_length n"
    using bit_length_gt [of 0 n] assms(1) by simp
  have "binade (of_nat n) = int (bit_length n) - 1"
    using assms(1) by (simp add: binade_def)
  with le have e: "ulp_exponent (of_nat n) = - int k"
    by (simp add: ulp_exponent_def k_def)
  have p: "(2::rat) powi (- int k) = 1 / 2 ^ k"
    by (simp add: power_int_minus_divide)
  have "(of_nat n :: rat) / (1 / 2 ^ k) = of_int (int (n * 2 ^ k))"
    by simp
  then have "round_even (of_nat n / (1 / 2 ^ k)) = int (n * 2 ^ k)"
    by (simp only: round_even_of_int)
  then show ?thesis
    unfolding round_magnitude_def e p by simp
qed

lemma to_double_int_below:
  assumes "k < 600000"
  shows "num_lt (to_double (of_int k)) (Fin 600000)"
proof -
  consider "k = 0" | "k < 0" | "0 < k" by linarith
  then show ?thesis
  proof cases
    case 1
    then show ?thesis by (simp add: to_double_def)
  next
    case 2
    have "0 \<le> round_magnitude \<bar>of_int k\<bar>"
      by (rule round_magnitude_nonneg) simp
    with 2 show ?thesis
      by (simp add: to_double_def)
  next
    case 3
    define n where "n = nat k"
    have n: "0 < n" "n < 2 ^ 53" "of_int k = (of_nat n :: rat)" "n < 600000"
      using 3 assms by (simp_all add: n_def)
    have "round_magnitude (of_nat n) = of_nat n"
      using n(1,2) by (rule round_magnitude_exact)
    moreover have "(of_nat n :: rat) < 2 ^ 1024"
    proof -
      have "(of_nat n :: rat) < 600000" using n(4) by simp
      also have "\<dots> < 2 ^ 1024" by simp
      finally show ?thesis .
    qed
    ultimately show ?thesis
      using n(1,4) by (simp add: to_double_def n(3))
  qed
qed

text \<open>Rounding does not take a value of at least 600000 below 600000.\<close>

lemma round_magnitude_ge_ttl:
  assumes d: "600000 \<le> d"
  shows "600000 \<le> round_magnitude d"
proof -
  define n where "n = nat \<lfloor>d\<rfloor>"
  define b where "b = bit_length n"
  have "600000 \<le> \<lfloor>d\<rfloor>"
    using d by (simp add: le_floor_iff)
  then have n: "600000 \<le> n"
    unfolding n_def by linarith
  have nd: "of_nat n \<le> d"
    using d by (simp add: n_def)
  have "(2::nat) ^ 19 \<le> n"
    using n by simp
  then have b19: "19 < b"
    unfolding b_def by (rule bit_length_gt)
  have "binade d = int b - 1"
    using d by (simp add: binade_def n_def b_def)
  with b19 have e: "ulp_exponent d = int b - 53"
    by (simp add: ulp_exponent_def)
  show ?thesis
  proof (cases "b = 20")
    case True
    have p: "(2::rat) powi (- 33) = 1 / 2 ^ 33"
      by (simp add: power_int_minus_divide)
    have "of_int (600000 * 2 ^ 33) \<le> d / (1 / 2 ^ 33)"
      using d by simp
    then have "600000 * 2 ^ 33 \<le> round_even (d / (1 / 2 ^ 33))"
      by (rule round_even_ge)
    then have "(of_int (600000 * 2 ^ 33) :: rat) \<le> of_int (round_even (d / (1 / 2 ^ 33)))"
      by (simp only: of_int_le_iff)
    then show ?thesis
      unfolding round_magnitude_def e True by (simp add: p)
  next
    case False
    with b19 have b21: "20 < b" by simp
    have low: "(2::rat) powi (int b - 1) \<le> d"
    proof -
      have "0 < n" using n by simp
      then have "2 ^ (b - 1) \<le> n"
        unfolding b_def by (rule bit_length_lower)
      then have "(2::rat) ^ (b - 1) \<le> of_nat n"
        by (metis of_nat_le_iff of_nat_numeral of_nat_power)
      moreover have "(2::rat) powi (int b - 1) = 2 ^ (b - 1)"
        using b21 by (simp add: power_int_def nat_diff_distrib)
      ultimately show ?thesis using nd by linarith
    qed
    have split: "(2::rat) powi (int b - 1) = 2 ^ 52 * 2 powi (int b - 53)"
    proof -
      have "(2::rat) powi (52 + (int b - 53)) = 2 powi 52 * 2 powi (int b - 53)"
        by (rule power_int_add) simp
      then show ?thesis by simp
    qed
    have pos: "(0::rat) < 2 powi (int b - 53)"
      by (simp add: zero_less_power_int)
    have "of_int (2 ^ 52) \<le> d / 2 powi (int b - 53)"
      using low pos by (simp add: split pos_le_divide_eq)
    then have "2 ^ 52 \<le> round_even (d / 2 powi (int b - 53))"
      by (rule round_even_ge)
    then have "(of_int (2 ^ 52) :: rat) \<le> of_int (round_even (d / 2 powi (int b - 53)))"
      by (simp only: of_int_le_iff)
    then have "(2::rat) ^ 52 * 2 powi (int b - 53)
               \<le> of_int (round_even (d / 2 powi (int b - 53))) * 2 powi (int b - 53)"
      using pos by simp
    then have "(2::rat) powi (int b - 1) \<le> round_magnitude d"
      by (simp add: round_magnitude_def e split)
    moreover have "(2::rat) powi 20 \<le> 2 powi (int b - 1)"
      using b21 by (intro power_int_increasing) simp_all
    ultimately show ?thesis by simp
  qed
qed

lemma to_double_not_below:
  assumes "600000 \<le> d"
  shows "\<not> num_lt (to_double d) (Fin 600000)"
proof -
  from assms have "600000 \<le> round_magnitude d"
    by (rule round_magnitude_ge_ttl)
  with assms show ?thesis
    by (simp add: to_double_def)
qed

subsection \<open>Data acquisition\<close>

lemma adopt_fields:
  "itemsArray (adopt d s) = d"
  "filteredArray (adopt d s) = d"
  "effects (adopt d s) = effects s"
  "loadingIndicator (adopt d s) = loadingIndicator s"
  "errorContainer (adopt d s) = errorContainer s"
  by (simp_all add: adopt_def alloc_def itemsArray_def filteredArray_def)

text \<open>One turn of the loop, for a failing and for a successful attempt.\<close>

lemma fetchLoop_fail_last:
  assumes "attemptBody (network ev 3) = Inl err"
  shows "fetchLoop ev 3 s = Throw err (s\<lparr>effects := effects s @ [NetworkRequest]\<rparr>)"
  by (subst fetchLoop.simps) (simp add: assms maxAttempts_def)

lemma fetchLoop_fail_retry:
  assumes "attemptBody (network ev k) = Inl err" and "k < 3"
  shows "fetchLoop ev k s
         = fetchLoop ev (Suc k) (s\<lparr>effects := effects s @ [NetworkRequest, Delay (300 * k)]\<rparr>)"
  using assms by (subst fetchLoop.simps) (simp add: maxAttempts_def)

lemma fetchLoop_success:
  assumes "attemptBody (network ev k) = Inr d" and "k \<le> 3"
  shows "fetchLoop ev k s
         = Normal ((adopt d (s\<lparr>effects := effects s @ [NetworkRequest]\<rparr>))
                     \<lparr>effects := effects s @ [NetworkRequest, CacheWrite d (clock ev k)]\<rparr>)"
  using assms by (subst fetchLoop.simps) (simp add: maxAttempts_def)

lemma fetchLoop_all_fail:
  assumes "attemptBody (network ev 1) = Inl e1"
    and "attemptBody (network ev 2) = Inl e2"
    and "attemptBody (network ev 3) = Inl e3"
  shows "fetchLoop ev 1 s
         = Throw e3 (s\<lparr>effects := effects s @
              [NetworkRequest, Delay 300, NetworkRequest, Delay 600, NetworkRequest]\<rparr>)"
proof -
  have "fetchLoop ev 1 s
        = fetchLoop ev 2 (s\<lparr>effects := effects s @ [NetworkRequest, Delay 300]\<rparr>)"
    using fetchLoop_fail_retry [OF assms(1), of s] by (simp add: numeral_2_eq_2)
  also have "\<dots> = fetchLoop ev 3
        (s\<lparr>effects := effects s @ [NetworkRequest, Delay 300, NetworkRequest, Delay 600]\<rparr>)"
    using fetchLoop_fail_retry [OF assms(2),
        of "s\<lparr>effects := effects s @ [NetworkRequest, Delay 300]\<rparr>"]
    by (simp add: numeral_3_eq_3 numeral_2_eq_2)
  also have "\<dots> = Throw e3 (s\<lparr>effects := effects s @
              [NetworkRequest, Delay 300, NetworkRequest, Delay 600, NetworkRequest]\<rparr>)"
    by (simp add: fetchLoop_fail_last [OF assms(3)])
  finally show ?thesis .
qed

lemma fetchLoop_second:
  assumes "attemptBody (network ev 1) = Inl e1" and "attemptBody (network ev 2) = Inr d"
  shows "fetchLoop ev 1 s
         = Normal ((adopt d (s\<lparr>effects := effects s @
                      [NetworkRequest, Delay 300, NetworkRequest]\<rparr>))
                     \<lparr>effects := effects s @
                        [NetworkRequest, Delay 300, NetworkRequest, CacheWrite d (clock ev 2)]\<rparr>)"
proof -
  have "fetchLoop ev 1 s
        = fetchLoop ev 2 (s\<lparr>effects := effects s @ [NetworkRequest, Delay 300]\<rparr>)"
    using fetchLoop_fail_retry [OF assms(1), of s] by (simp add: numeral_2_eq_2)
  also have "\<dots> = Normal ((adopt d (s\<lparr>effects := effects s @
                      [NetworkRequest, Delay 300, NetworkRequest]\<rparr>))
                     \<lparr>effects := effects s @
                        [NetworkRequest, Delay 300, NetworkRequest, CacheWrite d (clock ev 2)]\<rparr>)"
    by (simp add: fetchLoop_success [OF assms(2)])
  finally show ?thesis .
qed

lemma fetchLoop_third:
  assumes "attemptBody (network ev 1) = Inl e1" and "attemptBody (network ev 2) = Inl e2"
    and "attemptBody (network ev 3) = Inr d"
  shows "fetchLoop ev 1 s
         = Normal ((adopt d (s\<lparr>effects := effects s @
                      [NetworkRequest, Delay 300, NetworkRequest, Delay 600, NetworkRequest]\<rparr>))
                     \<lparr>effects := effects s @
                        [NetworkRequest, Delay 300, NetworkRequest, Delay 600, NetworkRequest,
                         CacheWrite d (clock ev 3)]\<rparr>)"
proof -
  have "fetchLoop ev 1 s
        = fetchLoop ev 2 (s\<lparr>effects := effects s @ [NetworkRequest, Delay 300]\<rparr>)"
    using fetchLoop_fail_retry [OF assms(1), of s] by (simp add: numeral_2_eq_2)
  also have "\<dots> = fetchLoop ev 3
        (s\<lparr>effects := effects s @ [NetworkRequest, Delay 300, NetworkRequest, Delay 600]\<rparr>)"
    using fetchLoop_fail_retry [OF assms(2),
        of "s\<lparr>effects := effects s @ [NetworkRequest, Delay 300]\<rparr>"]
    by (simp add: numeral_3_eq_3 numeral_2_eq_2)
  also have "\<dots> = Normal ((adopt d (s\<lparr>effects := effects s @
                      [NetworkRequest, Delay 300, NetworkRequest, Delay 600, NetworkRequest]\<rparr>))
                     \<lparr>effects := effects s @
                        [NetworkRequest, Delay 300, NetworkRequest, Delay 600, NetworkRequest,
                         CacheWrite d (clock ev 3)]\<rparr>)"
    by (simp add: fetchLoop_success [OF assms(3)])
  finally show ?thesis .
qed

lemma fetchData_uncached: "cachedData ev = None \<Longrightarrow> fetchData ev s = fetchLoop ev 1 s"
  by (simp add: fetchData_def)

lemma adopt_then_log:
  "itemsArray ((adopt d s)\<lparr>effects := es\<rparr>) = d"
  "filteredArray ((adopt d s)\<lparr>effects := es\<rparr>) = d"
  by (simp_all add: adopt_def alloc_def itemsArray_def filteredArray_def)

lemma world_examples:
  "cachedData (world NoItem t n) = None"
  "network (world c t n) = n"
  "clock (world c t n) k = t"
  "cache (world c t n) = c"
  by (simp_all add: world_def cachedData_def)

lemma net_examples:
  "attemptBody (failing_net (Suc 0)) = Inl (Error ''Failed to fetch blogs'')"
  "attemptBody (failing_net 2) = Inl (Error ''Unexpected API response'')"
  "attemptBody (failing_net 3) = Inl (TypeError ''Failed to fetch'')"
  "attemptBody (third_time_net (Suc 0)) = Inl (Error ''Failed to fetch blogs'')"
  "attemptBody (third_time_net 2) = Inl (Error ''Failed to fetch blogs'')"
  "attemptBody (third_time_net 3) = Inr sample_entries"
  by (simp_all add: failing_net_def third_time_net_def)

lemma effects_full_page: "effects full_page = []"
  by (simp add: full_page_def BlogList_def)

text \<open>Every run of the loop that starts at an attempt within the limit begins with a request.\<close>

lemma fetchLoop_extends:
  "\<exists>rest. effects (state_of (fetchLoop ev k s)) = effects s @ rest"
proof (induction ev k s rule: fetchLoop.induct)
  case (1 ev attempt s)
  show ?case
  proof (cases "attempt \<le> maxAttempts")
    case False
    then show ?thesis by (subst fetchLoop.simps) simp
  next
    case True
    show ?thesis
    proof (cases "attemptBody (network ev attempt)")
      case (Inr d)
      with True show ?thesis
        by (subst fetchLoop.simps) (simp add: adopt_fields)
    next
      case (Inl err)
      show ?thesis
      proof (cases "attempt < maxAttempts")
        case False
        with True Inl show ?thesis by (subst fetchLoop.simps) simp
      next
        case less: True
        from "1.IH" [OF True refl Inl less]
        obtain rest where "effects (state_of (fetchLoop ev (attempt + 1)
            (s\<lparr>effects := effects s @ [NetworkRequest]\<rparr>
              \<lparr>effects := effects (s\<lparr>effects := effects s @ [NetworkRequest]\<rparr>)
                 @ [Delay (300 * attempt)]\<rparr>)))
          = effects s @ NetworkRequest # Delay (300 * attempt) # rest"
          by auto
        with True Inl less show ?thesis
          by (subst fetchLoop.simps) simp
      qed
    qed
  qed
qed

lemma fetchLoop_starts_with_request:
  "\<exists>rest. effects (state_of (fetchLoop ev 1 s)) = effects s @ NetworkRequest # rest"
proof (cases "attemptBody (network ev 1)")
  case (Inr d)
  then show ?thesis
    using fetchLoop_success [of ev 1 d s] by simp
next
  case (Inl err)
  then have "fetchLoop ev 1 s
             = fetchLoop ev (Suc 1) (s\<lparr>effects := effects s @ [NetworkRequest, Delay (300 * 1)]\<rparr>)"
    by (intro fetchLoop_fail_retry) simp_all
  moreover obtain rest where
    "effects (state_of (fetchLoop ev (Suc 1)
        (s\<lparr>effects := effects s @ [NetworkRequest, Delay (300 * 1)]\<rparr>)))
     = effects (s\<lparr>effects := effects s @ [NetworkRequest, Delay (300 * 1)]\<rparr>) @ rest"
    using fetchLoop_extends by blast
  ultimately show ?thesis by simp
qed

lemma failing_fetch:
  assumes "cachedData (world c t failing_net) = None"
  shows "fetchData (world c t failing_net) s
         = Throw (TypeError ''Failed to fetch'')
             (s\<lparr>effects := effects s @
                [NetworkRequest, Delay 300, NetworkRequest, Delay 600, NetworkRequest]\<rparr>)"
  using fetchLoop_all_fail [of "world c t failing_net" "Error ''Failed to fetch blogs''"
      "Error ''Unexpected API response''" "TypeError ''Failed to fetch''" s]
  by (simp add: fetchData_uncached [OF assms] world_examples net_examples)

lemma cachedData_Some:
  "cachedData ev = Some d \<longleftrightarrow>
     (\<exists>ts. cache ev = Parsed (Envelope d ts)
           \<and> num_lt (double_sub (Fin (of_int (clock ev 0))) ts) (Fin cacheTtlMs))"
  by (auto simp: cachedData_def split: cache_read.splits parsed.splits if_splits)

text \<open>
  The age of an integer timestamp is compared as in exact arithmetic, and no age of
  ten minutes or more is rounded below the limit.
\<close>

lemma double_age_of_int:
  "now - t < 600000
   \<Longrightarrow> num_lt (double_sub (Fin (of_int now)) (Fin (of_int t))) (Fin cacheTtlMs)"
  using to_double_int_below [of "now - t"]
  by (simp add: double_sub_def cacheTtlMs_def)

lemma double_age_not_below:
  assumes "\<not> num_lt (num_sub (Fin now) ts) (Fin cacheTtlMs)"
  shows "\<not> num_lt (double_sub (Fin now) ts) (Fin cacheTtlMs)"
proof (cases ts)
  case (Fin b)
  with assms have "600000 \<le> now - b"
    by (simp add: cacheTtlMs_def)
  then have "\<not> num_lt (to_double (now - b)) (Fin 600000)"
    by (rule to_double_not_below)
  with Fin show ?thesis
    by (simp add: double_sub_def cacheTtlMs_def)
qed (use assms in \<open>simp_all add: double_sub_def\<close>)

lemma double_age_just_below:
  "double_sub (Fin (of_int 600000)) (Fin (1 / 2 ^ 70)) = Fin 600000"
  by (simp only: double_sub_def num_sub.simps jsnum.case of_int_numeral
      to_double_just_below [OF refl])

lemma cache_examples:
  "num_lt (num_sub (Fin (of_int 600000)) (Fin (1 / 2 ^ 70))) (Fin cacheTtlMs)"
  "\<not> num_lt (num_sub (Fin (of_int 601000)) (Fin 1000)) (Fin cacheTtlMs)"
  "(600999::int) - 1000 < 600000"
  by (simp_all add: cacheTtlMs_def)

text \<open>
  Claim C1. The claim is that every present, structurally valid envelope whose
  timestamp is less than ten minutes old is adopted without a request, and that
  otherwise a request is made. The code compares the double \<^verbatim>\<open>Date.now() - timestamp\<close>
  with 600000. With the clock at 600000 and the timestamp \<open>1 / 2 ^ 70\<close> the envelope is less
  than ten minutes old, the double difference is 600000, and \<^verbatim>\<open>fetchData\<close> goes to the
  network.
\<close>

theorem fetchData_young_envelope_refetched:
  "cache (world (Parsed (Envelope sample_entries (Fin (1 / 2 ^ 70)))) 600000 failing_net)
     = Parsed (Envelope sample_entries (Fin (1 / 2 ^ 70)))
   \<and> num_lt (num_sub
          (Fin (of_int (clock
             (world (Parsed (Envelope sample_entries (Fin (1 / 2 ^ 70)))) 600000 failing_net) 0)))
          (Fin (1 / 2 ^ 70))) (Fin cacheTtlMs)
   \<and> fetchData (world (Parsed (Envelope sample_entries (Fin (1 / 2 ^ 70)))) 600000 failing_net)
        full_page
     = Throw (TypeError ''Failed to fetch'')
         (full_page\<lparr>effects :=
            [NetworkRequest, Delay 300, NetworkRequest, Delay 600, NetworkRequest]\<rparr>)"
proof (intro conjI)
  let ?w = "world (Parsed (Envelope sample_entries (Fin (1 / 2 ^ 70)))) 600000 failing_net"
  show "cache ?w = Parsed (Envelope sample_entries (Fin (1 / 2 ^ 70)))"
    by (simp only: world_examples)
  show "num_lt (num_sub (Fin (of_int (clock ?w 0))) (Fin (1 / 2 ^ 70))) (Fin cacheTtlMs)"
    by (simp only: world_examples cache_examples)
  have "\<not> num_lt (double_sub (Fin (of_int (clock ?w 0))) (Fin (1 / 2 ^ 70))) (Fin cacheTtlMs)"
    by (simp only: world_examples double_age_just_below) (simp add: cacheTtlMs_def)
  then have "cachedData ?w = None"
    by (cases "cachedData ?w") (auto simp: cachedData_Some world_examples)
  then show "fetchData ?w full_page
     = Throw (TypeError ''Failed to fetch'')
         (full_page\<lparr>effects :=
            [NetworkRequest, Delay 300, NetworkRequest, Delay 600, NetworkRequest]\<rparr>)"
    by (simp add: failing_fetch effects_full_page)
qed

text \<open>
  Claim C1, amended. When the cache holds an envelope with an array of entries and a
  timestamp for which the double \<^verbatim>\<open>Date.now() - timestamp\<close> is less than 600000, and so
  whenever the timestamp is a whole number of milliseconds (as \<^verbatim>\<open>Date.now()\<close> writes it)
  less than ten minutes before the clock, \<^verbatim>\<open>fetchData\<close> returns with that array as
  \<open>items\<close> and as \<open>filteredItems\<close> and without any effect (no request). When there is no
  text, the storage or the parser throws, the value is no envelope, or the age is ten
  minutes or more or no number at all, the first thing it does is a network request.
\<close>

theorem fetchData_cache_policy:
  "(cache ev = Parsed (Envelope d ts)
      \<and> num_lt (double_sub (Fin (of_int (clock ev 0))) ts) (Fin cacheTtlMs)
    \<longrightarrow> (\<exists>s'. fetchData ev s = Normal s' \<and> itemsArray s' = d \<and> filteredArray s' = d
              \<and> effects s' = effects s))
   \<and> (cache ev = Parsed (Envelope d (Fin (of_int t))) \<and> clock ev 0 - t < 600000
    \<longrightarrow> (\<exists>s'. fetchData ev s = Normal s' \<and> itemsArray s' = d \<and> filteredArray s' = d
              \<and> effects s' = effects s))
   \<and> ((\<forall>d' ts'. cache ev = Parsed (Envelope d' ts')
          \<longrightarrow> \<not> num_lt (num_sub (Fin (of_int (clock ev 0))) ts') (Fin cacheTtlMs))
    \<longrightarrow> (\<exists>rest. effects (state_of (fetchData ev s)) = effects s @ NetworkRequest # rest))"
proof (intro conjI impI)
  assume "cache ev = Parsed (Envelope d ts)
      \<and> num_lt (double_sub (Fin (of_int (clock ev 0))) ts) (Fin cacheTtlMs)"
  then have "cachedData ev = Some d"
    by (auto simp: cachedData_Some)
  then show "\<exists>s'. fetchData ev s = Normal s' \<and> itemsArray s' = d \<and> filteredArray s' = d
              \<and> effects s' = effects s"
    by (simp add: fetchData_def adopt_fields)
next
  assume a: "cache ev = Parsed (Envelope d (Fin (of_int t))) \<and> clock ev 0 - t < 600000"
  then have "num_lt (double_sub (Fin (of_int (clock ev 0))) (Fin (of_int t))) (Fin cacheTtlMs)"
    by (intro double_age_of_int) simp
  with a have "cachedData ev = Some d"
    by (auto simp: cachedData_Some)
  then show "\<exists>s'. fetchData ev s = Normal s' \<and> itemsArray s' = d \<and> filteredArray s' = d
              \<and> effects s' = effects s"
    by (simp add: fetchData_def adopt_fields)
next
  assume "\<forall>d' ts'. cache ev = Parsed (Envelope d' ts')
          \<longrightarrow> \<not> num_lt (num_sub (Fin (of_int (clock ev 0))) ts') (Fin cacheTtlMs)"
  then have "cachedData ev = None"
    by (cases "cachedData ev") (auto simp: cachedData_Some dest: double_age_not_below)
  then show "\<exists>rest. effects (state_of (fetchData ev s)) = effects s @ NetworkRequest # rest"
    using fetchLoop_starts_with_request [of ev s] by (simp add: fetchData_uncached)
qed

theorem fetchData_cache_policy_witness:
  "cache (world (Parsed (Envelope sample_entries (Fin (of_int 1000)))) 600999 failing_net)
     = Parsed (Envelope sample_entries (Fin (of_int 1000)))
   \<and> clock (world (Parsed (Envelope sample_entries (Fin (of_int 1000)))) 600999 failing_net) 0
       - 1000 < 600000
   \<and> num_lt (double_sub
          (Fin (of_int (clock
             (world (Parsed (Envelope sample_entries (Fin (of_int 1000)))) 600999 failing_net) 0)))
          (Fin (of_int 1000))) (Fin cacheTtlMs)
   \<and> (\<exists>s'. fetchData
              (world (Parsed (Envelope sample_entries (Fin (of_int 1000)))) 600999 failing_net)
              full_page = Normal s'
          \<and> itemsArray s' = sample_entries \<and> filteredArray s' = sample_entries
          \<and> effects s' = [])
   \<and> (\<exists>rest. effects (state_of
          (fetchData (world (Parsed (Envelope sample_entries (Fin 1000))) 601000 failing_net)
             full_page)) = NetworkRequest # rest)"
proof (intro conjI)
  let ?fresh = "world (Parsed (Envelope sample_entries (Fin (of_int 1000)))) 600999 failing_net"
  let ?stale = "world (Parsed (Envelope sample_entries (Fin 1000))) 601000 failing_net"
  show a: "cache ?fresh = Parsed (Envelope sample_entries (Fin (of_int 1000)))"
    by (simp only: world_examples)
  show b: "clock ?fresh 0 - 1000 < 600000"
    by (simp only: world_examples cache_examples)
  show c: "num_lt (double_sub (Fin (of_int (clock ?fresh 0))) (Fin (of_int 1000))) (Fin cacheTtlMs)"
    using b by (rule double_age_of_int)
  from fetchData_cache_policy [of ?fresh sample_entries "Fin (of_int 1000)" full_page 1000,
      THEN conjunct1, THEN mp, OF conjI [OF a c]]
       fetchData_cache_policy [of ?fresh sample_entries "Fin (of_int 1000)" full_page 1000,
      THEN conjunct2, THEN conjunct1, THEN mp, OF conjI [OF a b]]
  show "\<exists>s'. fetchData ?fresh full_page = Normal s'
          \<and> itemsArray s' = sample_entries \<and> filteredArray s' = sample_entries
          \<and> effects s' = []"
    by (simp add: effects_full_page)
  have d: "\<forall>d' ts'. cache ?stale = Parsed (Envelope d' ts')
          \<longrightarrow> \<not> num_lt (num_sub (Fin (of_int (clock ?stale 0))) ts') (Fin cacheTtlMs)"
    by (simp add: world_examples cacheTtlMs_def)
  from fetchData_cache_policy [of ?stale sample_entries "Fin 1000" full_page 1000,
      THEN conjunct2, THEN conjunct2, THEN mp, OF d]
  show "\<exists>rest. effects (state_of (fetchData ?stale full_page)) = NetworkRequest # rest"
    by (simp add: effects_full_page)
qed

text \<open>
  Claim C2. When the cache gives nothing and the three attempts fail (status not ok,
  body not an array, or a rejection), \<^verbatim>\<open>fetchData\<close> makes exactly three requests, waits
  300ms after the first and 600ms after the second failure, and throws the error of
  the third attempt. When attempt 1, 2 or 3 succeeds after failures only, it returns
  with that attempt's payload as \<open>items\<close> and \<open>filteredItems\<close>, and the log ends with that
  attempt's request and the write to the cache: no further attempt is made.
\<close>

theorem fetchData_three_attempts:
  assumes "cachedData ev = None"
  shows "(attemptBody (network ev 1) = Inl e1 \<and> attemptBody (network ev 2) = Inl e2
            \<and> attemptBody (network ev 3) = Inl e3
          \<longrightarrow> fetchData ev s
              = Throw e3 (s\<lparr>effects := effects s @
                  [NetworkRequest, Delay 300, NetworkRequest, Delay 600, NetworkRequest]\<rparr>))
       \<and> (attemptBody (network ev 1) = Inr d
          \<longrightarrow> (\<exists>s'. fetchData ev s = Normal s' \<and> itemsArray s' = d \<and> filteredArray s' = d
                \<and> effects s' = effects s @ [NetworkRequest, CacheWrite d (clock ev 1)]))
       \<and> (attemptBody (network ev 1) = Inl e1 \<and> attemptBody (network ev 2) = Inr d
          \<longrightarrow> (\<exists>s'. fetchData ev s = Normal s' \<and> itemsArray s' = d \<and> filteredArray s' = d
                \<and> effects s' = effects s @
                     [NetworkRequest, Delay 300, NetworkRequest, CacheWrite d (clock ev 2)]))
       \<and> (attemptBody (network ev 1) = Inl e1 \<and> attemptBody (network ev 2) = Inl e2
            \<and> attemptBody (network ev 3) = Inr d
          \<longrightarrow> (\<exists>s'. fetchData ev s = Normal s' \<and> itemsArray s' = d \<and> filteredArray s' = d
                \<and> effects s' = effects s @
                     [NetworkRequest, Delay 300, NetworkRequest, Delay 600, NetworkRequest,
                      CacheWrite d (clock ev 3)]))"
proof (intro conjI impI)
  assume "attemptBody (network ev 1) = Inl e1 \<and> attemptBody (network ev 2) = Inl e2
            \<and> attemptBody (network ev 3) = Inl e3"
  then show "fetchData ev s
              = Throw e3 (s\<lparr>effects := effects s @
                  [NetworkRequest, Delay 300, NetworkRequest, Delay 600, NetworkRequest]\<rparr>)"
    using fetchLoop_all_fail [of ev e1 e2 e3 s] by (simp add: fetchData_uncached [OF assms])
next
  assume "attemptBody (network ev 1) = Inr d"
  then show "\<exists>s'. fetchData ev s = Normal s' \<and> itemsArray s' = d \<and> filteredArray s' = d
                \<and> effects s' = effects s @ [NetworkRequest, CacheWrite d (clock ev 1)]"
    using fetchLoop_success [of ev 1 d s]
    by (simp add: fetchData_uncached [OF assms] adopt_then_log)
next
  assume "attemptBody (network ev 1) = Inl e1 \<and> attemptBody (network ev 2) = Inr d"
  then show "\<exists>s'. fetchData ev s = Normal s' \<and> itemsArray s' = d \<and> filteredArray s' = d
                \<and> effects s' = effects s @
                     [NetworkRequest, Delay 300, NetworkRequest, CacheWrite d (clock ev 2)]"
    using fetchLoop_second [of ev e1 d s]
    by (simp add: fetchData_uncached [OF assms] adopt_then_log)
next
  assume "attemptBody (network ev 1) = Inl e1 \<and> attemptBody (network ev 2) = Inl e2
            \<and> attemptBody (network ev 3) = Inr d"
  then show "\<exists>s'. fetchData ev s = Normal s' \<and> itemsArray s' = d \<and> filteredArray s' = d
                \<and> effects s' = effects s @
                     [NetworkRequest, Delay 300, NetworkRequest, Delay 600, NetworkRequest,
                      CacheWrite d (clock ev 3)]"
    using fetchLoop_third [of ev e1 e2 d s]
    by (simp add: fetchData_uncached [OF assms] adopt_then_log)
qed

theorem fetchData_three_attempts_witness:
  "cachedData (world NoItem 0 failing_net) = None
   \<and> fetchData (world NoItem 0 failing_net) full_page
     = Throw (TypeError ''Failed to fetch'')
         (full_page\<lparr>effects :=
            [NetworkRequest, Delay 300, NetworkRequest, Delay 600, NetworkRequest]\<rparr>)
   \<and> (\<exists>s'. fetchData (world NoItem 0 third_time_net) full_page = Normal s'
          \<and> itemsArray s' = sample_entries \<and> filteredArray s' = sample_entries
          \<and> effects s' = [NetworkRequest, Delay 300, NetworkRequest, Delay 600, NetworkRequest,
                           CacheWrite sample_entries 0])"
proof (intro conjI)
  show c: "cachedData (world NoItem 0 failing_net) = None"
    by (rule world_examples)
  from fetchData_three_attempts [OF c, THEN conjunct1, rule_format,
      of "Error ''Failed to fetch blogs''" "Error ''Unexpected API response''"
         "TypeError ''Failed to fetch''" full_page]
  show "fetchData (world NoItem 0 failing_net) full_page
     = Throw (TypeError ''Failed to fetch'')
         (full_page\<lparr>effects :=
            [NetworkRequest, Delay 300, NetworkRequest, Delay 600, NetworkRequest]\<rparr>)"
    by (simp add: world_examples net_examples effects_full_page)
  have c': "cachedData (world NoItem 0 third_time_net) = None"
    by (rule world_examples)
  from fetchData_three_attempts [OF c', THEN conjunct2, THEN conjunct2, THEN conjunct2, rule_format,
      of "Error ''Failed to fetch blogs''" "Error ''Failed to fetch blogs''" sample_entries full_page]
  show "\<exists>s'. fetchData (world NoItem 0 third_time_net) full_page = Normal s'
          \<and> itemsArray s' = sample_entries \<and> filteredArray s' = sample_entries
          \<and> effects s' = [NetworkRequest, Delay 300, NetworkRequest, Delay 600, NetworkRequest,
                           CacheWrite sample_entries 0]"
    by (simp add: world_examples net_examples effects_full_page)
qed


subsection \<open>Initialisation\<close>

lemma fetchLoop_loadingIndicator:
  "loadingIndicator (state_of (fetchLoop ev k s)) = loadingIndicator s"
proof (induction ev k s rule: fetchLoop.induct)
  case (1 ev attempt s)
  show ?case
  proof (cases "attempt \<le> maxAttempts")
    case False
    then show ?thesis by (subst fetchLoop.simps) simp
  next
    case True
    show ?thesis
    proof (cases "attemptBody (network ev attempt)")
      case (Inr d)
      with True show ?thesis
        by (subst fetchLoop.simps) (simp add: adopt_fields)
    next
      case (Inl err)
      show ?thesis
      proof (cases "attempt < maxAttempts")
        case False
        with True Inl show ?thesis by (subst fetchLoop.simps) simp
      next
        case less: True
        from "1.IH" [OF True refl Inl less] True Inl less show ?thesis
          by (subst fetchLoop.simps) simp
      qed
    qed
  qed
qed

lemma fetchData_loadingIndicator:
  "loadingIndicator (state_of (fetchData ev s)) = loadingIndicator s"
  by (cases "cachedData ev") (simp_all add: fetchData_def fetchLoop_loadingIndicator adopt_fields)

lemma showError_loadingIndicator: "loadingIndicator (showError err s) = loadingIndicator s"
  by (cases "errorContainer s") (auto simp: showError_def)

lemma setupEventListeners_loadingIndicator:
  "loadingIndicator (setupEventListeners s) = loadingIndicator s"
  by (simp add: setupEventListeners_def Let_def)

lemma hideLoading_hidden:
  "loadingIndicator (hideLoading s) = Some cl \<Longrightarrow> ''hidden'' \<in> set cl"
  by (cases "loadingIndicator s") (auto simp: hideLoading_def classList_add_def split: if_splits)

lemma hideLoading_None: "(loadingIndicator (hideLoading s) = None) = (loadingIndicator s = None)"
  by (simp add: hideLoading_def)

lemma showLoading_None: "(loadingIndicator (showLoading s) = None) = (loadingIndicator s = None)"
  by (simp add: showLoading_def)

text \<open>The three ways through \<^verbatim>\<open>init\<close>.\<close>

lemma init_cases:
  "init h ev s =
     (case fetchData ev (showLoading s) of
        Throw err s1 \<Rightarrow> Normal (hideLoading (showError err s1))
      | Normal s1 \<Rightarrow>
          (case render h (setupEventListeners s1) of
             Throw err s2 \<Rightarrow> Normal (hideLoading (showError err s2))
           | Normal s2 \<Rightarrow> Normal (hideLoading s2)))"
  by (simp add: init_def try_finally_def try_catch_def and_then_def split: outcome.splits)

text \<open>
  Claim C7. \<^verbatim>\<open>init\<close> always returns normally. At its end the loading indicator, when
  there is one, carries the class \<open>hidden\<close>, whatever the acquisition and the first
  render did; and when the acquisition throws, the final state is the one \<^verbatim>\<open>showError\<close>
  and then \<^verbatim>\<open>hideLoading\<close> make of the state at the throw.
\<close>

theorem init_never_raises:
  "\<exists>s'. init h ev s = Normal s'
        \<and> (\<forall>cl. loadingIndicator s' = Some cl \<longrightarrow> ''hidden'' \<in> set cl)
        \<and> ((loadingIndicator s' = None) = (loadingIndicator s = None))
        \<and> (\<forall>err s1. fetchData ev (showLoading s) = Throw err s1
              \<longrightarrow> s' = hideLoading (showError err s1))"
proof (cases "fetchData ev (showLoading s)")
  case (Throw err s1)
  have "loadingIndicator s1 = loadingIndicator (showLoading s)"
    using fetchData_loadingIndicator [of ev "showLoading s"] Throw by simp
  then have "(loadingIndicator (hideLoading (showError err s1)) = None) = (loadingIndicator s = None)"
    by (simp add: hideLoading_None showError_loadingIndicator showLoading_None)
  with Throw show ?thesis
    by (auto simp: init_cases dest: hideLoading_hidden)
next
  case (Normal s1)
  have l1: "loadingIndicator s1 = loadingIndicator (showLoading s)"
    using fetchData_loadingIndicator [of ev "showLoading s"] Normal by simp
  show ?thesis
  proof (cases "render h (setupEventListeners s1)")
    case inner: (Normal s2)
    have "loadingIndicator s2 = loadingIndicator s1"
      using render_frame(6) [of h "setupEventListeners s1"] inner
      by (simp add: setupEventListeners_loadingIndicator)
    then have "(loadingIndicator (hideLoading s2) = None) = (loadingIndicator s = None)"
      by (simp add: hideLoading_None l1 showLoading_None)
    with Normal inner show ?thesis
      by (auto simp: init_cases dest: hideLoading_hidden)
  next
    case inner: (Throw err s2)
    have "loadingIndicator s2 = loadingIndicator s1"
      using render_frame(6) [of h "setupEventListeners s1"] inner
      by (simp add: setupEventListeners_loadingIndicator)
    then have "(loadingIndicator (hideLoading (showError err s2)) = None)
               = (loadingIndicator s = None)"
      by (simp add: hideLoading_None showError_loadingIndicator l1 showLoading_None)
    with Normal inner show ?thesis
      by (auto simp: init_cases dest: hideLoading_hidden)
  qed
qed

theorem init_never_raises_witness:
  "\<exists>s'. init plain_host (world NoItem 0 failing_net) full_page = Normal s'
        \<and> loadingIndicator s' = Some [''hidden'']
        \<and> errorContainer s' = Some ([], ''Error: Failed to fetch'')"
proof -
  let ?thrown = "(showLoading full_page)\<lparr>effects := effects (showLoading full_page) @
          [NetworkRequest, Delay 300, NetworkRequest, Delay 600, NetworkRequest]\<rparr>"
  from init_never_raises [of plain_host "world NoItem 0 failing_net" full_page]
  obtain s' where i: "init plain_host (world NoItem 0 failing_net) full_page = Normal s'"
    and e: "\<forall>err s1. fetchData (world NoItem 0 failing_net) (showLoading full_page) = Throw err s1
              \<longrightarrow> s' = hideLoading (showError err s1)"
    by blast
  from e have s': "s' = hideLoading (showError (TypeError ''Failed to fetch'') ?thrown)"
    by (simp add: failing_fetch [OF world_examples(1)])
  have "loadingIndicator s' = Some [''hidden'']"
    by (simp add: s' hideLoading_def showError_def showLoading_def full_page_def BlogList_def
        classList_add_def classList_remove_def)
  moreover have "errorContainer s' = Some ([], ''Error: Failed to fetch'')"
    by (simp add: s' hideLoading_def showError_def showLoading_def full_page_def BlogList_def
        classList_add_def classList_remove_def)
  ultimately show ?thesis using i by simp
qed


end
